theory Spec2Isabelle
  imports Complex_Main "HOL-Library.Product_Lexorder" "HOL-Library.Log_Nat"
begin

section \<open>Python floats\<close>

text \<open>
  A Python \<^verbatim>\<open>float\<close> is an IEEE 754 binary64 number. A finite one is \<open>m \<cdot> 2\<^sup>e\<close> for
  integers \<open>m\<close> and \<open>e\<close>, and \<open>Finite m e\<close> stands for it; the operations below return
  it with \<open>m\<close> odd, or as \<open>Finite 0 0\<close>, so that equal values are equal terms. The two
  infinities and NaN are values of their own. The sign of a zero is not represented: the
  modules never print a float or divide by a zero (Python raises before it divides),
  \<^verbatim>\<open>==\<close> and \<^verbatim>\<open><\<close> do not see it, and in a sum, a difference, a product, a
  quotient or a square root it can only change the sign of a zero result.
\<close>

datatype double = Finite int int | PInf | NInf | NaN

text \<open>\<open>fl_normalize m e\<close> is \<open>m \<cdot> 2\<^sup>e\<close> with the trailing zero bits of \<open>m\<close> moved to \<open>e\<close>.\<close>

function fl_normalize :: "int \<Rightarrow> int \<Rightarrow> double" where
  "fl_normalize m e =
     (if m = 0 then Finite 0 0
      else if even m then fl_normalize (m div 2) (e + 1)
      else Finite m e)"
  by pat_completeness auto

termination
  by (relation "measure (\<lambda>(m, e). nat \<bar>m\<bar>)") auto

declare fl_normalize.simps [simp del]

text \<open>
  \<open>round_nearest_even m sh\<close> is the integer nearest to \<open>m / 2\<^sup>s\<^sup>h\<close>, the even one of
  the two when \<open>m / 2\<^sup>s\<^sup>h\<close> lies half way.
\<close>

definition round_nearest_even :: "int \<Rightarrow> nat \<Rightarrow> int" where
  "round_nearest_even m sh =
     (let t = m div 2 ^ sh; r = m mod 2 ^ sh
      in if 2 * r < 2 ^ sh then t
         else if 2 * r > 2 ^ sh then t + 1
         else if even t then t else t + 1)"

text \<open>
  Rounding to nearest, ties to even: \<open>fl_round m e\<close> is the double nearest to the exact
  value \<open>m \<cdot> 2\<^sup>e\<close>. With \<open>2\<^sup>k \<le> \<bar>m \<cdot> 2\<^sup>e\<bar> < 2\<^sup>k\<^sup>+\<^sup>1\<close>, a double in that binade is a
  multiple of \<open>2\<^sup>q\<close> for \<open>q = k - 52\<close>, and of \<open>2\<^sup>-\<^sup>1\<^sup>0\<^sup>7\<^sup>4\<close> below the normal range; a
  rounded value of magnitude \<open>2\<^sup>1\<^sup>0\<^sup>2\<^sup>4\<close> or more is an infinity.
\<close>

definition fl_round :: "int \<Rightarrow> int \<Rightarrow> double" where
  "fl_round m e =
     (if m = 0 then Finite 0 0
      else
        let k = bitlen \<bar>m\<bar> + e - 1;
            q = max k (- 1022) - 52;
            n = (if q \<le> e then m * 2 ^ nat (e - q) else round_nearest_even m (nat (q - e)))
        in if bitlen \<bar>n\<bar> + q > 1024 then (if m > 0 then PInf else NInf)
           else fl_normalize n q)"

text \<open>
  \<open>fl_ratio a b e\<close> is the double nearest to \<open>(a / b) \<cdot> 2\<^sup>e\<close>, for \<open>a\<close> and \<open>b\<close> other
  than zero. The quotient of the magnitudes is computed to at least 56 bits, and one more
  bit records whether the division left a remainder, which is all that rounding to 53 bits
  can depend on. \<open>fl_sqrt m e\<close> is the double nearest to the square root of \<open>m \<cdot> 2\<^sup>e\<close>
  for \<open>m > 0\<close>, from the integer square root \<open>isqrt\<close> in the same way.
\<close>

definition fl_ratio :: "int \<Rightarrow> int \<Rightarrow> int \<Rightarrow> double" where
  "fl_ratio a b e =
     (let s = (if (a < 0) = (b < 0) then 1 else - 1);
          sh = nat (max 0 (bitlen \<bar>b\<bar> - bitlen \<bar>a\<bar> + 56));
          t = (\<bar>a\<bar> * 2 ^ sh) div \<bar>b\<bar>;
          r = (\<bar>a\<bar> * 2 ^ sh) mod \<bar>b\<bar>
      in fl_round (s * (2 * t + (if r = 0 then 0 else 1))) (e - int sh - 1))"

function isqrt :: "int \<Rightarrow> int" where
  "isqrt n = (if n < 2 then n
              else let r = 2 * isqrt (n div 4) in if (r + 1) * (r + 1) \<le> n then r + 1 else r)"
  by pat_completeness auto

termination
  by (relation "measure nat") auto

declare isqrt.simps [simp del]

definition fl_sqrt :: "int \<Rightarrow> int \<Rightarrow> double" where
  "fl_sqrt m e =
     (let sh0 = nat (max 0 (110 - bitlen m));
          sh = (if even (e - int sh0) then sh0 else sh0 + 1);
          M = m * 2 ^ sh;
          t = isqrt M
      in fl_round (2 * t + (if t * t = M then 0 else 1)) ((e - int sh) div 2 - 1))"

text \<open>\<open>D k\<close> is \<^verbatim>\<open>float(k)\<close>, the double nearest to the integer \<open>k\<close>.\<close>

definition D :: "int \<Rightarrow> double" where
  "D k = fl_round k 0"

definition fsign :: "double \<Rightarrow> int" where
  "fsign a = (case a of Finite m e \<Rightarrow> sgn m | PInf \<Rightarrow> 1 | NInf \<Rightarrow> - 1 | NaN \<Rightarrow> 0)"

definition fneg :: "double \<Rightarrow> double" where
  "fneg a = (case a of Finite m e \<Rightarrow> Finite (- m) e | PInf \<Rightarrow> NInf | NInf \<Rightarrow> PInf | NaN \<Rightarrow> NaN)"

definition fadd :: "double \<Rightarrow> double \<Rightarrow> double" where
  "fadd a b =
     (case (a, b) of
        (Finite m1 e1, Finite m2 e2) \<Rightarrow>
          fl_round (m1 * 2 ^ nat (e1 - min e1 e2) + m2 * 2 ^ nat (e2 - min e1 e2)) (min e1 e2)
      | (NaN, _) \<Rightarrow> NaN
      | (_, NaN) \<Rightarrow> NaN
      | (PInf, NInf) \<Rightarrow> NaN
      | (NInf, PInf) \<Rightarrow> NaN
      | (PInf, _) \<Rightarrow> PInf
      | (NInf, _) \<Rightarrow> NInf
      | (_, PInf) \<Rightarrow> PInf
      | (_, NInf) \<Rightarrow> NInf)"

definition fmul :: "double \<Rightarrow> double \<Rightarrow> double" where
  "fmul a b =
     (case (a, b) of
        (Finite m1 e1, Finite m2 e2) \<Rightarrow> fl_round (m1 * m2) (e1 + e2)
      | (NaN, _) \<Rightarrow> NaN
      | (_, NaN) \<Rightarrow> NaN
      | _ \<Rightarrow> (if fsign a * fsign b > 0 then PInf else if fsign a * fsign b < 0 then NInf else NaN))"

text \<open>
  The quotient of IEEE 754 for a divisor other than zero. Python raises
  \<^verbatim>\<open>ZeroDivisionError\<close> on a zero divisor, whatever the dividend; \<open>truediv\<close> below is
  Python's \<^verbatim>\<open>/\<close>, and \<open>fdiv\<close> is only applied through it.
\<close>

definition fdiv :: "double \<Rightarrow> double \<Rightarrow> double" where
  "fdiv a b =
     (case (a, b) of
        (Finite m1 e1, Finite m2 e2) \<Rightarrow>
          if m2 = 0 then NaN else if m1 = 0 then Finite 0 0 else fl_ratio m1 m2 (e1 - e2)
      | (NaN, _) \<Rightarrow> NaN
      | (_, NaN) \<Rightarrow> NaN
      | (Finite m1 e1, _) \<Rightarrow> Finite 0 0
      | (_, Finite m2 e2) \<Rightarrow>
          (if fsign a * fsign b > 0 then PInf else if fsign a * fsign b < 0 then NInf else NaN)
      | _ \<Rightarrow> NaN)"

text \<open>
  The square root of IEEE 754. \<^verbatim>\<open>math.sqrt\<close> raises \<^verbatim>\<open>ValueError\<close> on a negative
  argument; \<open>math_sqrt\<close> below is \<^verbatim>\<open>math.sqrt\<close>, and \<open>fsqrt\<close> is only applied
  through it.
\<close>

definition fsqrt :: "double \<Rightarrow> double" where
  "fsqrt a =
     (case a of
        Finite m e \<Rightarrow> if m < 0 then NaN else if m = 0 then Finite 0 0 else fl_sqrt m e
      | PInf \<Rightarrow> PInf
      | _ \<Rightarrow> NaN)"

text \<open>\<^verbatim>\<open><\<close> and \<^verbatim>\<open>==\<close> on floats: every comparison with NaN is false.\<close>

definition fless :: "double \<Rightarrow> double \<Rightarrow> bool" where
  "fless a b =
     (case (a, b) of
        (Finite m1 e1, Finite m2 e2) \<Rightarrow>
          m1 * 2 ^ nat (e1 - min e1 e2) < m2 * 2 ^ nat (e2 - min e1 e2)
      | (NaN, _) \<Rightarrow> False
      | (_, NaN) \<Rightarrow> False
      | (PInf, _) \<Rightarrow> False
      | (_, NInf) \<Rightarrow> False
      | (NInf, _) \<Rightarrow> True
      | (_, PInf) \<Rightarrow> True)"

definition feq :: "double \<Rightarrow> double \<Rightarrow> bool" where
  "feq a b =
     (case (a, b) of
        (Finite m1 e1, Finite m2 e2) \<Rightarrow>
          m1 * 2 ^ nat (e1 - min e1 e2) = m2 * 2 ^ nat (e2 - min e1 e2)
      | (PInf, PInf) \<Rightarrow> True
      | (NInf, NInf) \<Rightarrow> True
      | _ \<Rightarrow> False)"

text \<open>
  The arithmetic of the modules is written with the operators of Python; on \<open>double\<close>
  they are the operations above. \<open>a \<le> b\<close> is \<^verbatim>\<open>a <= b\<close> and \<open>\<bar>a\<bar>\<close> is \<^verbatim>\<open>abs(a)\<close>.
  \<open>=\<close> on \<open>double\<close> is the equality of terms: \<^verbatim>\<open>==\<close> is \<open>feq\<close>.
\<close>

instantiation double :: "{zero, one, plus, minus, uminus, times, ord, abs}"
begin

definition zero_double :: double where
  "zero_double = Finite 0 0"

definition one_double :: double where
  "one_double = Finite 1 0"

definition plus_double :: "double \<Rightarrow> double \<Rightarrow> double" where
  "plus_double a b = fadd a b"

definition minus_double :: "double \<Rightarrow> double \<Rightarrow> double" where
  "minus_double a b = fadd a (fneg b)"

definition uminus_double :: "double \<Rightarrow> double" where
  "uminus_double a = fneg a"

definition times_double :: "double \<Rightarrow> double \<Rightarrow> double" where
  "times_double a b = fmul a b"

definition less_double :: "double \<Rightarrow> double \<Rightarrow> bool" where
  "less_double a b = fless a b"

definition less_eq_double :: "double \<Rightarrow> double \<Rightarrow> bool" where
  "less_eq_double a b = (fless a b \<or> feq a b)"

definition abs_double :: "double \<Rightarrow> double" where
  "abs_double a = (if fsign a < 0 then fneg a else a)"

instance ..

end

text \<open>
  The real number a finite double stands for, and the place of a double in the order of
  \<^verbatim>\<open><\<close>: the infinities below and above every finite value. NaN has no place in that
  order; \<open>float_key\<close> puts it last.
\<close>

definition valof :: "double \<Rightarrow> real" where
  "valof a =
     (case a of
        Finite m e \<Rightarrow> if 0 \<le> e then of_int m * 2 ^ nat e else of_int m / 2 ^ nat (- e)
      | _ \<Rightarrow> 0)"

definition float_key :: "double \<Rightarrow> int \<times> real" where
  "float_key a = (case a of Finite m e \<Rightarrow> (0, valof a) | NInf \<Rightarrow> (- 1, 0) | PInf \<Rightarrow> (1, 0) | NaN \<Rightarrow> (2, 0))"

text \<open>
  The exceptions of the modules: the two explicit \<^verbatim>\<open>raise Exception(...)\<close> of
  \<^verbatim>\<open>triangulation2.py\<close> with their messages, and the errors Python raises by itself
  when a list is read out of range or indexed or compared with \<^verbatim>\<open>None\<close>, when a float
  is divided by zero and when \<^verbatim>\<open>math.sqrt\<close> is given a negative number. Float
  arithmetic raises nothing else: an overflow is an infinity.
\<close>

datatype error = Exception string | TypeError | IndexError | ZeroDivisionError | ValueError

definition truediv :: "double \<Rightarrow> double \<Rightarrow> error + double" where
  "truediv a b = (if feq b 0 then Inl ZeroDivisionError else Inr (fdiv a b))"

definition math_sqrt :: "double \<Rightarrow> error + double" where
  "math_sqrt a = (if a < 0 then Inl ValueError else Inr (fsqrt a))"

section \<open>Three-dimensional vectors and directed planes\<close>

text \<open>
  \<^verbatim>\<open>vector3.py\<close>: a \<^verbatim>\<open>Vector3\<close> is an immutable triple of Python floats, as its
  constructor is annotated. Every method computes in floats, in the order in which Python
  evaluates the expression: \<open>a + b + c\<close> is \<open>(a + b) + c\<close>.
\<close>

record Vector3 =
  x3 :: double
  y3 :: double
  z3 :: double

definition negated3 :: "Vector3 \<Rightarrow> Vector3" where
  "negated3 a = \<lparr>x3 = - x3 a, y3 = - y3 a, z3 = - z3 a\<rparr>"

definition plus3 :: "Vector3 \<Rightarrow> Vector3 \<Rightarrow> Vector3" where
  "plus3 s a = \<lparr>x3 = x3 s + x3 a, y3 = y3 s + y3 a, z3 = z3 s + z3 a\<rparr>"

definition minus3 :: "Vector3 \<Rightarrow> Vector3 \<Rightarrow> Vector3" where
  "minus3 s a = \<lparr>x3 = x3 s - x3 a, y3 = y3 s - y3 a, z3 = z3 s - z3 a\<rparr>"

definition times3 :: "Vector3 \<Rightarrow> double \<Rightarrow> Vector3" where
  "times3 s a = \<lparr>x3 = x3 s * a, y3 = y3 s * a, z3 = z3 s * a\<rparr>"

definition dot3 :: "Vector3 \<Rightarrow> Vector3 \<Rightarrow> double" where
  "dot3 s a = x3 s * x3 a + y3 s * y3 a + z3 s * z3 a"

definition cross3 :: "Vector3 \<Rightarrow> Vector3 \<Rightarrow> Vector3" where
  "cross3 s a = \<lparr>x3 = y3 s * z3 a - z3 s * y3 a,
                  y3 = z3 s * x3 a - x3 s * z3 a,
                  z3 = x3 s * y3 a - y3 s * x3 a\<rparr>"

definition lerp3 :: "Vector3 \<Rightarrow> Vector3 \<Rightarrow> double \<Rightarrow> Vector3" where
  "lerp3 s a t = plus3 s (times3 (minus3 a s) t)"

definition length3 :: "Vector3 \<Rightarrow> error + double" where
  "length3 s = math_sqrt (dot3 s s)"

text \<open>
  \<^verbatim>\<open>plane3.py\<close>: \<^verbatim>\<open>Plane3(normal, w)\<close>; \<^verbatim>\<open>distance\<close> is the float
  \<^verbatim>\<open>normal.dot(vector) - w\<close> and \<^verbatim>\<open>coplanar\<close> compares it with \<^verbatim>\<open>epsilon\<close>, whose
  default is the literal \<^verbatim>\<open>0.000001\<close>: the double nearest to \<open>10\<^sup>-\<^sup>6\<close>, which is
  \<open>4722366482869645 \<cdot> 2\<^sup>-\<^sup>7\<^sup>2\<close>.
\<close>

record Plane3 =
  normal :: Vector3
  w :: double

definition distance :: "Plane3 \<Rightarrow> Vector3 \<Rightarrow> double" where
  "distance P vector = dot3 (normal P) vector - w P"

definition coplanar :: "Plane3 \<Rightarrow> Vector3 \<Rightarrow> double \<Rightarrow> bool" where
  "coplanar P vector epsilon = (distance P vector < epsilon)"

definition default_epsilon :: double where
  "default_epsilon = Finite 4722366482869645 (- 72)"

section \<open>Two-dimensional vectors and the geometric predicates\<close>

text \<open>
  \<^verbatim>\<open>vector2.py\<close>: a \<^verbatim>\<open>Vector2\<close> is an immutable pair of floats. The class
  defines no \<^verbatim>\<open>__eq__\<close>, so Python's \<^verbatim>\<open>==\<close> on two \<^verbatim>\<open>Vector2\<close> objects is object
  identity. The model therefore carries the identity of the object in the field \<open>oid\<close>;
  \<open>py_eq\<close> is the \<^verbatim>\<open>==\<close> of the class.
\<close>

record Vector2 =
  oid :: nat
  x2 :: double
  y2 :: double

definition py_eq :: "Vector2 \<Rightarrow> Vector2 \<Rightarrow> bool" where
  "py_eq a b = (oid a = oid b)"

definition coords :: "Vector2 \<Rightarrow> double \<times> double" where
  "coords a = (x2 a, y2 a)"

datatype Orientation = CO_LINEAR | LEFT | RIGHT

datatype Position = ON | INSIDE | OUTSIDE

text \<open>
  \<^verbatim>\<open>predicates.py\<close>. Both predicates compute a float and compare it with \<^verbatim>\<open>0.0\<close>;
  a NaN fails every comparison, which makes \<^verbatim>\<open>side\<close> answer \<open>CO_LINEAR\<close> and
  \<^verbatim>\<open>in_circle\<close> answer \<open>OUTSIDE\<close>. \<open>in_circle_det\<close> is the value of \<^verbatim>\<open>retval\<close>.
\<close>

definition side :: "Vector2 \<Rightarrow> Vector2 \<Rightarrow> Vector2 \<Rightarrow> Orientation" where
  "side a b c =
     (let area = ((x2 b - x2 a) * (y2 c - y2 a)) - ((x2 c - x2 a) * (y2 b - y2 a))
      in if area > 0 then LEFT else if area < 0 then RIGHT else CO_LINEAR)"

definition in_circle_det :: "Vector2 \<Rightarrow> Vector2 \<Rightarrow> Vector2 \<Rightarrow> Vector2 \<Rightarrow> double" where
  "in_circle_det a b c d =
     (let adx = x2 a - x2 d; ady = y2 a - y2 d;
          bdx = x2 b - x2 d; bdy = y2 b - y2 d;
          cdx = x2 c - x2 d; cdy = y2 c - y2 d;
          abdet = adx * bdy - bdx * ady;
          bcdet = bdx * cdy - cdx * bdy;
          cadet = cdx * ady - adx * cdy;
          alift = adx * adx + ady * ady;
          blift = bdx * bdx + bdy * bdy;
          clift = cdx * cdx + cdy * cdy
      in alift * bcdet + blift * cadet + clift * abdet)"

definition in_circle :: "Vector2 \<Rightarrow> Vector2 \<Rightarrow> Vector2 \<Rightarrow> Vector2 \<Rightarrow> Position" where
  "in_circle a b c d =
     (let retval = in_circle_det a b c d
      in if retval > 0 then INSIDE else if feq retval 0 then ON else OUTSIDE)"

section \<open>Triangles and the triangulation state\<close>

text \<open>
  \<^verbatim>\<open>triangle2.py\<close>: a \<^verbatim>\<open>Triangle2\<close> holds two Python lists \<^verbatim>\<open>v\<close> and \<^verbatim>\<open>n\<close>. Every
  triangle of \<^verbatim>\<open>triangulation2.py\<close> is built from two 3-tuples and is later changed one
  slot at a time or by assigning a 3-element list, so both lists always have exactly three
  slots: they are triples here, read by \<open>sel3\<close> and written by \<open>upd3\<close> at a slot
  \<open>0\<close>, \<open>1\<close> or \<open>2\<close>. A vertex slot holds an index or \<^verbatim>\<open>None\<close> (the ghost marker in
  slot 2); a neighbour slot always holds an index. Indices are positions of Python lists
  that the module only ever computes as non-negative numbers, hence \<open>nat\<close>.
\<close>

type_synonym 'a triple = "'a \<times> 'a \<times> 'a"

fun sel3 :: "nat \<Rightarrow> 'a triple \<Rightarrow> 'a" where
  "sel3 k (a, b, c) = (if k = 0 then a else if k = 1 then b else c)"

fun upd3 :: "nat \<Rightarrow> 'a \<Rightarrow> 'a triple \<Rightarrow> 'a triple" where
  "upd3 k z (a, b, c) = (if k = 0 then (z, b, c) else if k = 1 then (a, z, c) else (a, b, z))"

record Triangle2 =
  v :: "nat option triple"
  n :: "nat triple"

definition Triangle2 :: "nat option triple \<Rightarrow> nat triple \<Rightarrow> Triangle2" where
  "Triangle2 vs ns = \<lparr>v = vs, n = ns\<rparr>"

datatype MergeMethod = ARBITRARY | FLIP | DELAUNAY

datatype CutMethod = VERTICAL | HORIZONTAL | ALTERNATING

definition NOT_IMPLEMENTED :: error where
  "NOT_IMPLEMENTED = Exception ''NOT IMPLEMENTED.''"

text \<open>
  The attributes of \<^verbatim>\<open>Triangulation2\<close> that the algorithms read and write. The window
  is \<^verbatim>\<open>None\<close> (its default), which makes every \<^verbatim>\<open>draw\<close> call return at once; the
  \<^verbatim>\<open>print\<close> calls only write to the standard output. Neither is modelled.
\<close>

record Triangulation2 =
  vertices :: "Vector2 list"
  indices :: "nat option list"
  segments :: "(nat \<times> nat) list"
  triangles :: "Triangle2 list"

definition init :: "Vector2 list \<Rightarrow> (nat \<times> nat) list \<Rightarrow> Triangulation2" where
  "init vs segs = \<lparr>vertices = vs, indices = [], segments = segs, triangles = []\<rparr>"

subsection \<open>Sorting and removing duplicates\<close>

text \<open>
  \<^verbatim>\<open>__sort\<close>. \<^verbatim>\<open>sorted\<close> is stable, as \<open>sort_key\<close> is; the key is the pair of
  coordinates, compared lexicographically by \<^verbatim>\<open><\<close> on floats. \<open>sort_key\<close> needs
  a linear order, which \<^verbatim>\<open><\<close> is on the floats other than NaN: \<open>float_key\<close> maps
  them into one, and two floats have the same key exactly when \<^verbatim>\<open>==\<close> holds. (What
  \<^verbatim>\<open>sorted\<close> does with a NaN among the keys depends on the comparisons it happens to
  make; the model puts it last.) The loop over the sorted vertices compares the last
  vertex kept with the next one by \<^verbatim>\<open>==\<close>.
\<close>

definition sort_key_of :: "CutMethod \<Rightarrow> nat \<times> Vector2 \<Rightarrow> (int \<times> real) \<times> (int \<times> real)" where
  "sort_key_of cut_method vp =
     (if cut_method = HORIZONTAL then (float_key (y2 (snd vp)), float_key (x2 (snd vp)))
      else (float_key (x2 (snd vp)), float_key (y2 (snd vp))))"

definition dedup_step :: "Vector2 list \<times> nat option list \<Rightarrow> nat \<times> Vector2
    \<Rightarrow> Vector2 list \<times> nat option list" where
  "dedup_step st vp =
     (let vs = fst st; idx = snd st; index = fst vp; vertex = snd vp
      in if py_eq (vs ! (length vs - 1)) vertex
         then (vs, idx[index := Some (length vs - 1)])
         else (vs @ [vertex], idx[index := Some (length vs)]))"

definition eliminate_duplicates :: "(nat \<times> Vector2) list \<Rightarrow> Vector2 list \<times> nat option list" where
  "eliminate_duplicates enumerated_vertices =
     foldl dedup_step
       ([snd (hd enumerated_vertices)],
        (replicate (length enumerated_vertices) None)[fst (hd enumerated_vertices) := Some 0])
       (tl enumerated_vertices)"

fun adjust_segments :: "nat option list \<Rightarrow> (nat \<times> nat) list \<Rightarrow> (nat \<times> nat) list
    \<Rightarrow> (error + unit) \<times> (nat \<times> nat) list" where
  "adjust_segments idx [] new = (Inr (), new)"
| "adjust_segments idx (old_segment # rest) new =
     (if fst old_segment < length idx \<and> snd old_segment < length idx then
        (case (idx ! fst old_segment, idx ! snd old_segment) of
           (Some a, Some b) \<Rightarrow> adjust_segments idx rest (new @ [(min a b, max a b)])
         | _ \<Rightarrow> (Inl TypeError, new))
      else (Inl IndexError, new))"

definition sort_vertices :: "CutMethod \<Rightarrow> Triangulation2 \<Rightarrow> (error + unit) \<times> Triangulation2" where
  "sort_vertices cut_method s =
     (if length (vertices s) < 2 then (Inr (), s)
      else
        let enumerated_vertices = sort_key (sort_key_of cut_method) (enumerate 0 (vertices s));
            r = eliminate_duplicates enumerated_vertices;
            s1 = s\<lparr>vertices := fst r, indices := snd r\<rparr>
        in if cut_method = ALTERNATING then (Inl NOT_IMPLEMENTED, s1)
           else
             (case adjust_segments (indices s1) (segments s1) [] of
                (r, new) \<Rightarrow> (r, s1\<lparr>segments := new\<rparr>)))"

subsection \<open>Reading and writing the triangle array\<close>

text \<open>
  The methods below mutate \<^verbatim>\<open>self.triangles\<close> in place and may raise; a computation
  takes the triangle array and returns its result or the exception together with the
  array as it stands at that point.
\<close>

type_synonym ('s, 'a) exn_m = "'s \<Rightarrow> (error + 'a) \<times> 's"

type_synonym 'a tri_m = "(Triangle2 list, 'a) exn_m"

definition ret :: "'a \<Rightarrow> ('s, 'a) exn_m" where
  "ret a ts = (Inr a, ts)"

definition bnd :: "('s, 'a) exn_m \<Rightarrow> ('a \<Rightarrow> ('s, 'b) exn_m) \<Rightarrow> ('s, 'b) exn_m" where
  "bnd m f ts = (case m ts of (Inl e, ts') \<Rightarrow> (Inl e, ts') | (Inr a, ts') \<Rightarrow> f a ts')"

definition num_triangles :: "nat tri_m" where
  "num_triangles ts = (Inr (length ts), ts)"

definition tv :: "nat \<Rightarrow> nat \<Rightarrow> nat option tri_m" where
  "tv i k ts = (if i < length ts then (Inr (sel3 k (v (ts ! i))), ts) else (Inl IndexError, ts))"

definition tn :: "nat \<Rightarrow> nat \<Rightarrow> nat tri_m" where
  "tn i k ts = (if i < length ts then (Inr (sel3 k (n (ts ! i))), ts) else (Inl IndexError, ts))"

definition set_tv :: "nat \<Rightarrow> nat \<Rightarrow> nat option \<Rightarrow> unit tri_m" where
  "set_tv i k z ts =
     (if i < length ts then (Inr (), ts[i := (ts ! i)\<lparr>v := upd3 k z (v (ts ! i))\<rparr>])
      else (Inl IndexError, ts))"

definition set_tn :: "nat \<Rightarrow> nat \<Rightarrow> nat \<Rightarrow> unit tri_m" where
  "set_tn i k z ts =
     (if i < length ts then (Inr (), ts[i := (ts ! i)\<lparr>n := upd3 k z (n (ts ! i))\<rparr>])
      else (Inl IndexError, ts))"

definition append_triangle :: "Triangle2 \<Rightarrow> unit tri_m" where
  "append_triangle t ts = (Inr (), ts @ [t])"

definition vertex_at :: "Vector2 list \<Rightarrow> nat option \<Rightarrow> error + Vector2" where
  "vertex_at vs a =
     (case a of None \<Rightarrow> Inl TypeError
      | Some i \<Rightarrow> if i < length vs then Inr (vs ! i) else Inl IndexError)"

definition side_of :: "Vector2 list \<Rightarrow> nat option \<Rightarrow> nat option \<Rightarrow> nat option
    \<Rightarrow> error + Orientation" where
  "side_of vs a b c =
     (case vertex_at vs a of Inl e \<Rightarrow> Inl e | Inr va \<Rightarrow>
      case vertex_at vs b of Inl e \<Rightarrow> Inl e | Inr vb \<Rightarrow>
      case vertex_at vs c of Inl e \<Rightarrow> Inl e | Inr vc \<Rightarrow> Inr (side va vb vc))"

definition side_m :: "Vector2 list \<Rightarrow> nat option \<Rightarrow> nat option \<Rightarrow> nat option
    \<Rightarrow> Orientation tri_m" where
  "side_m vs a b c ts = (side_of vs a b c, ts)"

subsection \<open>The trivial triangulations\<close>

text \<open>\<^verbatim>\<open>__trivial_triangulation(begin, end)\<close>, for two or three vertices.\<close>

definition trivial_triangulation :: "Vector2 list \<Rightarrow> nat \<Rightarrow> nat
    \<Rightarrow> (nat \<times> nat \<times> nat \<times> nat) tri_m" where
  "trivial_triangulation vs bgn fin =
     (let num = fin - bgn in
      bnd num_triangles (\<lambda>num_t.
        if num < 3 then
          let t_0 = Triangle2 (Some bgn, Some (bgn + 1), None) (num_t + 1, num_t + 1, num_t + 1);
              t_1 = Triangle2 (Some (bgn + 1), Some bgn, None) (num_t, num_t, num_t)
          in bnd (append_triangle t_0) (\<lambda>_. bnd (append_triangle t_1) (\<lambda>_.
               ret (num_t, num_t + 1, num_t + 1, num_t)))
        else
          bnd (side_m vs (Some bgn) (Some (bgn + 1)) (Some (bgn + 2))) (\<lambda>orientation.
            if orientation = LEFT then
              let end_pt = bgn + 1; left_pt = bgn + 2;
                  t_0 = Triangle2 (Some bgn, Some end_pt, Some left_pt) (num_t + 1, num_t + 2, num_t + 3);
                  t_1 = Triangle2 (Some end_pt, Some bgn, None) (num_t, num_t + 3, num_t + 2);
                  t_2 = Triangle2 (Some left_pt, Some end_pt, None) (num_t, num_t + 1, num_t + 3);
                  t_3 = Triangle2 (Some bgn, Some left_pt, None) (num_t, num_t + 2, num_t + 1)
              in bnd (append_triangle t_0) (\<lambda>_. bnd (append_triangle t_1) (\<lambda>_.
                 bnd (append_triangle t_2) (\<lambda>_. bnd (append_triangle t_3) (\<lambda>_.
                   ret (num_t + 3, num_t + 1, num_t + 2, num_t + 3)))))
            else if orientation = RIGHT then
              let end_pt = bgn + 2; left_pt = bgn + 1;
                  t_0 = Triangle2 (Some bgn, Some end_pt, Some left_pt) (num_t + 1, num_t + 2, num_t + 3);
                  t_1 = Triangle2 (Some end_pt, Some bgn, None) (num_t, num_t + 3, num_t + 2);
                  t_2 = Triangle2 (Some left_pt, Some end_pt, None) (num_t, num_t + 1, num_t + 3);
                  t_3 = Triangle2 (Some bgn, Some left_pt, None) (num_t, num_t + 2, num_t + 1)
              in bnd (append_triangle t_0) (\<lambda>_. bnd (append_triangle t_1) (\<lambda>_.
                 bnd (append_triangle t_2) (\<lambda>_. bnd (append_triangle t_3) (\<lambda>_.
                   ret (num_t + 3, num_t + 1, num_t + 1, num_t + 2)))))
            else
              let t_0 = Triangle2 (Some bgn, Some (bgn + 1), None) (num_t + 1, num_t + 2, num_t + 1);
                  t_1 = Triangle2 (Some (bgn + 1), Some bgn, None) (num_t, num_t, num_t + 3);
                  t_2 = Triangle2 (Some (bgn + 1), Some (bgn + 2), None) (num_t + 3, num_t + 3, num_t);
                  t_3 = Triangle2 (Some (bgn + 2), Some (bgn + 1), None) (num_t + 2, num_t + 1, num_t + 2)
              in bnd (append_triangle t_0) (\<lambda>_. bnd (append_triangle t_1) (\<lambda>_.
                 bnd (append_triangle t_2) (\<lambda>_. bnd (append_triangle t_3) (\<lambda>_.
                   ret (num_t, num_t + 1, num_t + 3, num_t + 2))))))))"

subsection \<open>The arbitrary merge\<close>

text \<open>
  \<^verbatim>\<open>__merge_arbitrary\<close>. Its first part reads the six hull vertices and picks the ghost
  triangle to resurrect first; the result is \<open>Some (initial_tri, initial_v,
  initial_based_left, initial_opposite_tri, later_opposite_tri)\<close>, or \<open>None\<close> after the
  co-linear case has added its two ghost triangles.
\<close>

definition merge_begin :: "Vector2 list \<Rightarrow> nat \<Rightarrow> nat \<Rightarrow> nat \<Rightarrow> nat
    \<Rightarrow> (nat \<times> nat option \<times> bool \<times> nat \<times> nat) option tri_m" where
  "merge_begin vs tri_l6 tri_l7 tri_r2 tri_r3 =
     bnd num_triangles (\<lambda>num_t.
     bnd (tv tri_l6 0) (\<lambda>lr_v.
     bnd (tv tri_l7 0) (\<lambda>lru_v.
     bnd (tv tri_l6 1) (\<lambda>lrd_v.
     bnd (tv tri_r2 0) (\<lambda>rl_v.
     bnd (tv tri_r2 1) (\<lambda>rlu_v.
     bnd (tv tri_r3 0) (\<lambda>rld_v.
     bnd (side_m vs lru_v lr_v rl_v) (\<lambda>o1.
       if o1 = LEFT then ret (Some (tri_l7, rl_v, True, tri_r2, tri_r3))
       else
     bnd (side_m vs lrd_v lr_v rl_v) (\<lambda>o2.
       if o2 = RIGHT then ret (Some (tri_l6, rl_v, True, tri_r2, tri_r3))
       else
     bnd (side_m vs lr_v rl_v rlu_v) (\<lambda>o3.
       if o3 = LEFT then ret (Some (tri_r2, lr_v, False, tri_l7, tri_l6))
       else
     bnd (side_m vs lr_v rl_v rld_v) (\<lambda>o4.
       if o4 = RIGHT then ret (Some (tri_r3, lr_v, False, tri_l7, tri_l6))
       else
         let t_0 = Triangle2 (lr_v, rl_v, None) (num_t + 1, tri_r2, tri_l7);
             t_1 = Triangle2 (rl_v, lr_v, None) (num_t + 0, tri_l6, tri_r3)
         in bnd (set_tn tri_l7 1 (num_t + 0)) (\<lambda>_.
            bnd (set_tn tri_r2 2 (num_t + 0)) (\<lambda>_.
            bnd (set_tn tri_l6 2 (num_t + 1)) (\<lambda>_.
            bnd (set_tn tri_r3 1 (num_t + 1)) (\<lambda>_.
            bnd (append_triangle t_0) (\<lambda>_.
            bnd (append_triangle t_1) (\<lambda>_. ret None)))))))))))))))))"

text \<open>
  One turn of the loop that stitches above the initial triangle, on the loop variables
  \<open>(based_left, current_tri, opposite_tri)\<close>: \<open>Some\<close> of their next values, or
  \<open>None\<close> after the closing ghost triangle has been added (\<^verbatim>\<open>break\<close>).
\<close>

definition stitch_up_body :: "Vector2 list \<Rightarrow> bool \<times> nat \<times> nat
    \<Rightarrow> (bool \<times> nat \<times> nat) option tri_m" where
  "stitch_up_body vs st =
     (case st of (based_left, current_tri, opposite_tri) \<Rightarrow>
      bnd (if based_left then
             bnd (tv current_tri 0) (\<lambda>l_v.
             bnd (tv current_tri 2) (\<lambda>r_v.
             bnd (tn current_tri 2) (\<lambda>lg_tri.
             bnd (tv lg_tri 0) (\<lambda>lu_v.
             bnd (tv opposite_tri 1) (\<lambda>ru_v.
               ret (l_v, r_v, lg_tri, opposite_tri, lu_v, ru_v, 2::nat))))))
           else
             bnd (tv current_tri 2) (\<lambda>l_v.
             bnd (tv current_tri 1) (\<lambda>r_v.
             bnd (tn current_tri 1) (\<lambda>rg_tri.
             bnd (tv opposite_tri 0) (\<lambda>lu_v.
             bnd (tv rg_tri 1) (\<lambda>ru_v.
               ret (l_v, r_v, opposite_tri, rg_tri, lu_v, ru_v, 1::nat)))))))
        (\<lambda>(l_v, r_v, lg_tri, rg_tri, lu_v, ru_v, c_tri_neighbor).
      bnd (side_m vs lu_v l_v r_v) (\<lambda>o1.
        if o1 = LEFT then
          bnd (set_tv lg_tri 2 r_v) (\<lambda>_.
          bnd (set_tn lg_tri 1 current_tri) (\<lambda>_.
          bnd (set_tn current_tri c_tri_neighbor lg_tri) (\<lambda>_.
            ret (Some (True, lg_tri, if \<not> based_left then rg_tri else opposite_tri)))))
        else
      bnd (side_m vs ru_v r_v l_v) (\<lambda>o2.
        if o2 = RIGHT then
          bnd (set_tv rg_tri 2 l_v) (\<lambda>_.
          bnd (set_tn rg_tri 2 current_tri) (\<lambda>_.
          bnd (set_tn current_tri c_tri_neighbor rg_tri) (\<lambda>_.
            ret (Some (False, rg_tri, if based_left then lg_tri else opposite_tri)))))
        else
          bnd num_triangles (\<lambda>num_tri.
          bnd (if based_left then
                 bnd (tn current_tri 2) (\<lambda>lg.
                 bnd (set_tn current_tri 2 num_tri) (\<lambda>_. ret (opposite_tri, lg)))
               else
                 bnd (tn current_tri 1) (\<lambda>rg.
                 bnd (set_tn current_tri 1 num_tri) (\<lambda>_. ret (rg, opposite_tri))))
            (\<lambda>(rg_tri, lg_tri).
          bnd (set_tn rg_tri 2 num_tri) (\<lambda>_.
          bnd (set_tn lg_tri 1 num_tri) (\<lambda>_.
          bnd (append_triangle (Triangle2 (l_v, r_v, None) (current_tri, rg_tri, lg_tri))) (\<lambda>_.
            ret None)))))))))"

text \<open>The same for the loop that stitches below the initial triangle.\<close>

definition stitch_down_body :: "Vector2 list \<Rightarrow> bool \<times> nat \<times> nat
    \<Rightarrow> (bool \<times> nat \<times> nat) option tri_m" where
  "stitch_down_body vs st =
     (case st of (based_left, current_tri, opposite_tri) \<Rightarrow>
      bnd (if based_left then
             bnd (tv current_tri 1) (\<lambda>l_v.
             bnd (tv current_tri 2) (\<lambda>r_v.
             bnd (tn current_tri 1) (\<lambda>lg_tri.
             bnd (tv lg_tri 1) (\<lambda>ld_v.
             bnd (tv opposite_tri 0) (\<lambda>rd_v.
               ret (l_v, r_v, lg_tri, opposite_tri, ld_v, rd_v, 1::nat))))))
           else
             bnd (tv current_tri 2) (\<lambda>l_v.
             bnd (tv current_tri 0) (\<lambda>r_v.
             bnd (tn current_tri 2) (\<lambda>rg_tri.
             bnd (tv opposite_tri 1) (\<lambda>ld_v.
             bnd (tv rg_tri 0) (\<lambda>rd_v.
               ret (l_v, r_v, opposite_tri, rg_tri, ld_v, rd_v, 2::nat)))))))
        (\<lambda>(l_v, r_v, lg_tri, rg_tri, ld_v, rd_v, c_tri_neighbor).
      bnd (side_m vs ld_v l_v r_v) (\<lambda>o1.
        if o1 = RIGHT then
          bnd (set_tv lg_tri 2 r_v) (\<lambda>_.
          bnd (set_tn lg_tri 2 current_tri) (\<lambda>_.
          bnd (set_tn current_tri c_tri_neighbor lg_tri) (\<lambda>_.
            ret (Some (True, lg_tri, if \<not> based_left then rg_tri else opposite_tri)))))
        else
      bnd (side_m vs rd_v r_v l_v) (\<lambda>o2.
        if o2 = LEFT then
          bnd (set_tv rg_tri 2 l_v) (\<lambda>_.
          bnd (set_tn rg_tri 1 current_tri) (\<lambda>_.
          bnd (set_tn current_tri c_tri_neighbor rg_tri) (\<lambda>_.
            ret (Some (False, rg_tri, if based_left then lg_tri else opposite_tri)))))
        else
          bnd num_triangles (\<lambda>num_tri.
          bnd (if based_left then
                 bnd (tn current_tri 1) (\<lambda>rg.
                 bnd (set_tn current_tri 1 num_tri) (\<lambda>_. ret (rg, opposite_tri)))
               else
                 bnd (tn current_tri 2) (\<lambda>lg.
                 bnd (set_tn current_tri 2 num_tri) (\<lambda>_. ret (opposite_tri, lg))))
            (\<lambda>(rg_tri, lg_tri).
          bnd (set_tn rg_tri 2 num_tri) (\<lambda>_.
          bnd (set_tn lg_tri 1 num_tri) (\<lambda>_.
          bnd (append_triangle (Triangle2 (r_v, l_v, None) (current_tri, rg_tri, lg_tri))) (\<lambda>_.
            ret None)))))))))"

text \<open>
  The two \<^verbatim>\<open>while True\<close> loops. Nothing in the code bounds their number of turns, so
  a loop that does not return is the value \<open>None\<close>.
\<close>

partial_function (option) stitch_up :: "Vector2 list \<Rightarrow> bool \<times> nat \<times> nat \<Rightarrow> Triangle2 list
    \<Rightarrow> ((error + unit) \<times> Triangle2 list) option" where
  "stitch_up vs st ts =
     (case stitch_up_body vs st ts of
        (Inl e, ts') \<Rightarrow> Some (Inl e, ts')
      | (Inr None, ts') \<Rightarrow> Some (Inr (), ts')
      | (Inr (Some st'), ts') \<Rightarrow> stitch_up vs st' ts')"

partial_function (option) stitch_down :: "Vector2 list \<Rightarrow> bool \<times> nat \<times> nat \<Rightarrow> Triangle2 list
    \<Rightarrow> ((error + unit) \<times> Triangle2 list) option" where
  "stitch_down vs st ts =
     (case stitch_down_body vs st ts of
        (Inl e, ts') \<Rightarrow> Some (Inl e, ts')
      | (Inr None, ts') \<Rightarrow> Some (Inr (), ts')
      | (Inr (Some st'), ts') \<Rightarrow> stitch_down vs st' ts')"

declare stitch_up.simps [code] stitch_down.simps [code]

definition merge_arbitrary :: "Vector2 list \<Rightarrow> nat \<Rightarrow> nat \<Rightarrow> nat \<Rightarrow> nat \<Rightarrow> Triangle2 list
    \<Rightarrow> ((error + unit) \<times> Triangle2 list) option" where
  "merge_arbitrary vs tri_l6 tri_l7 tri_r2 tri_r3 ts =
     (case merge_begin vs tri_l6 tri_l7 tri_r2 tri_r3 ts of
        (Inl e, ts1) \<Rightarrow> Some (Inl e, ts1)
      | (Inr None, ts1) \<Rightarrow> Some (Inr (), ts1)
      | (Inr (Some (initial_tri, initial_v, initial_based_left,
                    initial_opposite_tri, later_opposite_tri)), ts1) \<Rightarrow>
          (case set_tv initial_tri 2 initial_v ts1 of
             (Inl e, ts2) \<Rightarrow> Some (Inl e, ts2)
           | (Inr _, ts2) \<Rightarrow>
               (case stitch_up vs (initial_based_left, initial_tri, initial_opposite_tri) ts2 of
                  None \<Rightarrow> None
                | Some (Inl e, ts3) \<Rightarrow> Some (Inl e, ts3)
                | Some (Inr _, ts3) \<Rightarrow>
                    stitch_down vs (initial_based_left, initial_tri, later_opposite_tri) ts3)))"

subsection \<open>Finding the corner ghosts, and the recursion\<close>

text \<open>
  \<^verbatim>\<open>__find_ghosts\<close> runs the same loop four times: from a triangle, follow neighbour
  slot \<open>first\<close> once and then neighbour slot \<open>later\<close> until a ghost is met.
\<close>

partial_function (option) find_ghost :: "nat \<Rightarrow> nat \<Rightarrow> bool \<Rightarrow> nat \<Rightarrow> Triangle2 list
    \<Rightarrow> (error + nat) option" where
  "find_ghost first later first_done t ts =
     (if t < length ts then
        (case sel3 2 (v (ts ! t)) of
           None \<Rightarrow> Some (Inr t)
         | Some _ \<Rightarrow>
             if first_done then find_ghost first later True (sel3 later (n (ts ! t))) ts
             else find_ghost first later True (sel3 first (n (ts ! t))) ts)
      else Some (Inl IndexError))"

declare find_ghost.simps [code]

definition find_ghosts :: "nat \<Rightarrow> nat \<Rightarrow> nat \<Rightarrow> nat \<Rightarrow> Triangle2 list
    \<Rightarrow> (error + nat \<times> nat \<times> nat \<times> nat) option" where
  "find_ghosts tri_l2 tri_l3 tri_r6 tri_r7 ts =
     (case find_ghost 2 1 False tri_l2 ts of None \<Rightarrow> None | Some (Inl e) \<Rightarrow> Some (Inl e)
      | Some (Inr t2) \<Rightarrow>
     (case find_ghost 1 2 False tri_l3 ts of None \<Rightarrow> None | Some (Inl e) \<Rightarrow> Some (Inl e)
      | Some (Inr t3) \<Rightarrow>
     (case find_ghost 2 1 False tri_r6 ts of None \<Rightarrow> None | Some (Inl e) \<Rightarrow> Some (Inl e)
      | Some (Inr t6) \<Rightarrow>
     (case find_ghost 1 2 False tri_r7 ts of None \<Rightarrow> None | Some (Inl e) \<Rightarrow> Some (Inl e)
      | Some (Inr t7) \<Rightarrow> Some (Inr (t2, t3, t6, t7))))))"

function divide_and_conquer :: "Vector2 list \<Rightarrow> nat \<Rightarrow> nat \<Rightarrow> Triangle2 list
    \<Rightarrow> ((error + nat \<times> nat \<times> nat \<times> nat) \<times> Triangle2 list) option" where
  "divide_and_conquer vs bgn fin ts =
     (if fin - bgn < 4 then Some (trivial_triangulation vs bgn fin ts)
      else
        let divider = ((fin - bgn) div 2) + bgn in
        (case divide_and_conquer vs bgn divider ts of
           None \<Rightarrow> None
         | Some (Inl e, ts1) \<Rightarrow> Some (Inl e, ts1)
         | Some (Inr (tri_l2, tri_l3, tri_l6, tri_l7), ts1) \<Rightarrow>
             (case divide_and_conquer vs divider fin ts1 of
                None \<Rightarrow> None
              | Some (Inl e, ts2) \<Rightarrow> Some (Inl e, ts2)
              | Some (Inr (tri_r2, tri_r3, tri_r6, tri_r7), ts2) \<Rightarrow>
                  (case merge_arbitrary vs tri_l6 tri_l7 tri_r2 tri_r3 ts2 of
                     None \<Rightarrow> None
                   | Some (Inl e, ts3) \<Rightarrow> Some (Inl e, ts3)
                   | Some (Inr _, ts3) \<Rightarrow>
                       (case find_ghosts tri_l2 tri_l3 tri_r6 tri_r7 ts3 of
                          None \<Rightarrow> None
                        | Some r \<Rightarrow> Some (r, ts3))))))"
  by pat_completeness auto
termination
  by (relation "measure (\<lambda>(vs, bgn, fin, ts). fin - bgn)") auto

subsection \<open>The entry point\<close>

text \<open>
  \<^verbatim>\<open>triangulate(merge_method, cut_method)\<close>: the triangle array is emptied first, then
  the two unsupported-mode tests raise, then the vertices are sorted and triangulated.
  The result is the exception or \<^verbatim>\<open>None\<close>, with the state the call leaves behind.
\<close>

definition triangulate :: "MergeMethod \<Rightarrow> CutMethod \<Rightarrow> Triangulation2
    \<Rightarrow> ((error + unit) \<times> Triangulation2) option" where
  "triangulate merge_method cut_method s =
     (let s0 = s\<lparr>triangles := []\<rparr> in
      if merge_method = FLIP \<or> merge_method = DELAUNAY then Some (Inl NOT_IMPLEMENTED, s0)
      else if cut_method = HORIZONTAL \<or> cut_method = ALTERNATING then Some (Inl NOT_IMPLEMENTED, s0)
      else
        (case sort_vertices cut_method s0 of
           (Inl e, s1) \<Rightarrow> Some (Inl e, s1)
         | (Inr _, s1) \<Rightarrow>
             if length (vertices s1) < 2 then Some (Inr (), s1)
             else
               (case divide_and_conquer (vertices s1) 0 (length (vertices s1)) (triangles s1) of
                  None \<Rightarrow> None
                | Some (Inl e, ts) \<Rightarrow> Some (Inl e, s1\<lparr>triangles := ts\<rparr>)
                | Some (Inr _, ts) \<Rightarrow> Some (Inr (), s1\<lparr>triangles := ts\<rparr>))))"

section \<open>The order of floats\<close>

text \<open>
  \<^verbatim>\<open><\<close>, \<^verbatim>\<open><=\<close> and \<^verbatim>\<open>==\<close> on floats other than NaN are the order and the
  equality of \<open>float_key\<close>; negation mirrors the order.
\<close>

lemma valof_powr: "valof (Finite m e) = of_int m * 2 powr (of_int e)"
proof (cases "0 \<le> e")
  case True
  then have "2 powr (of_int e) = (2::real) ^ nat e"
    by (simp add: powr_realpow [symmetric])
  with True show ?thesis by (simp add: valof_def)
next
  case False
  then have "2 powr (of_int e) = 1 / (2::real) ^ nat (- e)"
    by (simp add: powr_realpow [symmetric] powr_minus [symmetric] field_simps powr_minus_divide)
  with False show ?thesis by (simp add: valof_def)
qed

lemma scaled_real:
  "real_of_int (m * 2 ^ nat (e - min e e')) = valof (Finite m e) * 2 powr (- of_int (min e e'))"
proof -
  have "(2::real) ^ nat (e - min e e') = 2 powr (of_int (e - min e e'))"
    by (simp add: powr_realpow [symmetric])
  also have "\<dots> = 2 powr (of_int e) * 2 powr (- of_int (min e e'))"
    by (simp add: powr_add [symmetric])
  finally show ?thesis by (simp add: valof_powr)
qed

lemma fless_Finite:
  "fless (Finite m1 e1) (Finite m2 e2) \<longleftrightarrow> valof (Finite m1 e1) < valof (Finite m2 e2)"
proof -
  have "m1 * 2 ^ nat (e1 - min e1 e2) < m2 * 2 ^ nat (e2 - min e1 e2)
      \<longleftrightarrow> real_of_int (m1 * 2 ^ nat (e1 - min e1 e2)) < real_of_int (m2 * 2 ^ nat (e2 - min e1 e2))"
    by (simp only: of_int_less_iff)
  also have "\<dots> \<longleftrightarrow> valof (Finite m1 e1) * 2 powr (- of_int (min e1 e2))
      < valof (Finite m2 e2) * 2 powr (- of_int (min e1 e2))"
    using scaled_real [of m1 e1 e2] scaled_real [of m2 e2 e1] by (simp only: min.commute)
  also have "\<dots> \<longleftrightarrow> valof (Finite m1 e1) < valof (Finite m2 e2)"
    by simp
  finally show ?thesis by (simp add: fless_def)
qed

lemma feq_Finite:
  "feq (Finite m1 e1) (Finite m2 e2) \<longleftrightarrow> valof (Finite m1 e1) = valof (Finite m2 e2)"
proof -
  have "m1 * 2 ^ nat (e1 - min e1 e2) = m2 * 2 ^ nat (e2 - min e1 e2)
      \<longleftrightarrow> real_of_int (m1 * 2 ^ nat (e1 - min e1 e2)) = real_of_int (m2 * 2 ^ nat (e2 - min e1 e2))"
    by (simp only: of_int_eq_iff)
  also have "\<dots> \<longleftrightarrow> valof (Finite m1 e1) * 2 powr (- of_int (min e1 e2))
      = valof (Finite m2 e2) * 2 powr (- of_int (min e1 e2))"
    using scaled_real [of m1 e1 e2] scaled_real [of m2 e2 e1] by (simp only: min.commute)
  also have "\<dots> \<longleftrightarrow> valof (Finite m1 e1) = valof (Finite m2 e2)"
    by simp
  finally show ?thesis by (simp add: feq_def)
qed

lemma fless_key: "a < b \<longleftrightarrow> a \<noteq> NaN \<and> b \<noteq> NaN \<and> float_key a < float_key b"
  by (cases a; cases b) (simp_all add: less_double_def fless_Finite float_key_def, simp_all add: fless_def)

lemma feq_key: "feq a b \<longleftrightarrow> a \<noteq> NaN \<and> b \<noteq> NaN \<and> float_key a = float_key b"
  by (cases a; cases b) (simp_all add: feq_Finite float_key_def, simp_all add: feq_def)

lemma le_key: "a \<le> b \<longleftrightarrow> a \<noteq> NaN \<and> b \<noteq> NaN \<and> float_key a \<le> float_key b"
  unfolding less_eq_double_def feq_key fless_key [unfolded less_double_def] by auto

lemma valof_neg: "valof (Finite (- m) e) = - valof (Finite m e)"
  by (simp add: valof_def)

lemma key_neg: "float_key (- a) = (if a = NaN then (2, 0) else (- fst (float_key a), - snd (float_key a)))"
  by (cases a) (simp_all add: uminus_double_def fneg_def float_key_def valof_neg)

lemma neg_NaN: "- a = NaN \<longleftrightarrow> a = NaN"
  by (cases a) (simp_all add: uminus_double_def fneg_def)

lemma key_zero: "float_key 0 = (0, 0)"
  by (simp add: zero_double_def float_key_def valof_def)

lemma key_eps: "float_key 0 < float_key default_epsilon"
  unfolding key_zero by (simp add: default_epsilon_def float_key_def valof_def)

lemma fsign_neg: "fsign a < 0 \<longleftrightarrow> a < 0"
  by (cases a) (simp_all add: fsign_def fless_key float_key_def valof_def zero_double_def
      zero_less_mult_iff mult_less_0_iff divide_less_0_iff)

lemma abs_key: "\<bar>a :: double\<bar> = (if a < 0 then - a else a)"
  by (simp add: abs_double_def fsign_neg uminus_double_def)

section \<open>The one-sided coplanarity test\<close>

text \<open>
  The signed distance \<open>n \<cdot> p - w\<close> of a point from a plane as a real number, computed
  without rounding from the numbers that the (finite) coordinates stand for.
\<close>

definition exact_distance :: "Plane3 \<Rightarrow> Vector3 \<Rightarrow> real" where
  "exact_distance P vector =
     valof (x3 (normal P)) * valof (x3 vector) + valof (y3 (normal P)) * valof (y3 vector)
       + valof (z3 (normal P)) * valof (z3 vector) - valof (w P)"

definition overflow_plane :: Plane3 where
  "overflow_plane = \<lparr>normal = \<lparr>x3 = Finite 1 600, y3 = Finite (- 1) 600, z3 = 0\<rparr>, w = 1\<rparr>"

definition overflow_point :: Vector3 where
  "overflow_point = \<lparr>x3 = Finite 1 600, y3 = Finite 1 600, z3 = 0\<rparr>"

definition ground_plane :: Plane3 where
  "ground_plane = \<lparr>normal = \<lparr>x3 = 0, y3 = 0, z3 = 1\<rparr>, w = 0\<rparr>"

definition deep_point :: Vector3 where
  "deep_point = \<lparr>x3 = 0, y3 = 0, z3 = D (- 1000000)\<rparr>"

text \<open>
  C8, as the specification states it: \<^verbatim>\<open>coplanar\<close> would be true exactly when the
  signed distance \<open>n \<cdot> p - w\<close> is below \<^verbatim>\<open>epsilon\<close>, and in particular for every point
  strictly behind the plane. It is not: with \<open>h = 2\<^sup>6\<^sup>0\<^sup>0\<close> (the float \<^verbatim>\<open>2.0 ** 600\<close>),
  for the plane with normal \<open>(h, -h, 0)\<close> and \<open>w = 1\<close> and the point \<open>(h, h, 0)\<close> the
  signed distance is \<open>-1\<close>, the point lies behind the plane, but both products overflow,
  \<^verbatim>\<open>distance\<close> computes \<open>inf - inf - 1\<close>, which is NaN, and \<^verbatim>\<open>coplanar\<close>
  returns \<^verbatim>\<open>False\<close>.
\<close>

theorem coplanar_not_exact_distance:
  "exact_distance overflow_plane overflow_point = - 1
   \<and> - 1 < valof default_epsilon
   \<and> distance overflow_plane overflow_point = NaN
   \<and> \<not> coplanar overflow_plane overflow_point default_epsilon"
proof -
  have "exact_distance overflow_plane overflow_point = - 1"
    by (simp add: exact_distance_def overflow_plane_def overflow_point_def valof_def
        zero_double_def one_double_def)
  moreover have "- 1 < valof default_epsilon"
    by (simp add: default_epsilon_def valof_def)
  moreover have "distance overflow_plane overflow_point = NaN"
    by code_simp
  moreover have "\<not> coplanar overflow_plane overflow_point default_epsilon"
    by code_simp
  ultimately show ?thesis by blast
qed

text \<open>
  C8, amended. \<^verbatim>\<open>Plane3.coplanar(p, epsilon)\<close> is true exactly when the float that
  \<^verbatim>\<open>distance\<close> computes, \<^verbatim>\<open>normal.dot(p) - w\<close> in float arithmetic, is below
  \<^verbatim>\<open>epsilon\<close> by the float comparison. The test is one-sided: whenever the computed
  distance is negative and the tolerance is not (the default one in particular) the test
  passes, however large the computed distance is in magnitude, so the test is not the band
  \<open>\<bar>distance\<bar> < epsilon\<close>. When the computed distance is NaN the test fails.
\<close>

theorem coplanar_one_sided:
  "(coplanar P p epsilon \<longleftrightarrow> dot3 (normal P) p - w P < epsilon)
   \<and> (0 \<le> epsilon \<and> distance P p < 0 \<longrightarrow> coplanar P p epsilon)
   \<and> (distance P p < 0 \<longrightarrow> coplanar P p default_epsilon)
   \<and> (0 < epsilon \<and> distance P p \<le> - epsilon \<longrightarrow>
        coplanar P p epsilon \<and> \<not> \<bar>distance P p\<bar> < epsilon)
   \<and> (distance P p = NaN \<longrightarrow> \<not> coplanar P p epsilon)"
proof -
  define d where "d = distance P p"
  have 1: "coplanar P p epsilon \<longleftrightarrow> dot3 (normal P) p - w P < epsilon"
    by (simp add: coplanar_def distance_def)
  have 2: "0 \<le> epsilon \<and> d < 0 \<longrightarrow> d < epsilon"
    by (auto simp: le_key fless_key)
  have 3: "d < 0 \<longrightarrow> d < default_epsilon"
    using key_eps by (auto simp: fless_key default_epsilon_def)
  have 4: "0 < epsilon \<and> d \<le> - epsilon \<longrightarrow> d < epsilon \<and> \<not> \<bar>d\<bar> < epsilon"
    by (auto simp: abs_key le_key fless_key key_neg neg_NaN key_zero less_prod_def less_eq_prod_def
        split: if_splits)
  have 5: "d = NaN \<longrightarrow> \<not> d < epsilon"
    by (simp add: fless_key)
  from 1 2 3 4 5 show ?thesis
    unfolding d_def coplanar_def by blast
qed

theorem coplanar_one_sided_witness:
  "coplanar ground_plane deep_point default_epsilon
   \<and> \<not> \<bar>distance ground_plane deep_point\<bar> < default_epsilon"
proof -
  have "0 < default_epsilon"
    by code_simp
  moreover have "distance ground_plane deep_point \<le> - default_epsilon"
    by code_simp
  ultimately show ?thesis
    using coplanar_one_sided [of ground_plane deep_point default_epsilon] by blast
qed

section \<open>Triangulation: which exceptions can be raised\<close>

text \<open>
  The only exceptions that sorting with vertical cuts, the trivial triangulations, the
  merge and the ghost search can raise are the ones Python raises on a bad index:
  none of them contains a \<^verbatim>\<open>raise\<close>.
\<close>

declare divide_and_conquer.simps [simp del]

definition runtime_error :: "error \<Rightarrow> bool" where
  "runtime_error e = (e = TypeError \<or> e = IndexError)"

definition safe :: "('s, 'a) exn_m \<Rightarrow> bool" where
  "safe m = (\<forall>ts e ts'. m ts = (Inl e, ts') \<longrightarrow> runtime_error e)"

lemma safe_ret: "safe (ret a)"
  by (simp add: safe_def ret_def)

lemma safe_bnd: "safe m \<Longrightarrow> (\<And>a. safe (f a)) \<Longrightarrow> safe (bnd m f)"
  unfolding safe_def bnd_def by (auto split: prod.splits sum.splits)

lemma safe_if: "safe a \<Longrightarrow> safe b \<Longrightarrow> safe (if c then a else b)"
  by simp

lemma safe_case_prod: "(\<And>a b. safe (f a b)) \<Longrightarrow> safe (case p of (a, b) \<Rightarrow> f a b)"
  by (cases p) simp

lemma safe_prims:
  "safe num_triangles" "safe (tv i k)" "safe (tn i k)" "safe (set_tv i k z)"
  "safe (set_tn i k y)" "safe (append_triangle t)" "safe (side_m vs a b c)"
  by (auto simp: safe_def num_triangles_def tv_def tn_def set_tv_def set_tn_def
      append_triangle_def side_m_def side_of_def vertex_at_def runtime_error_def
      split: if_splits option.splits sum.splits)

lemmas safe_intros = safe_ret safe_bnd safe_if safe_case_prod safe_prims

lemma safe_trivial: "safe (trivial_triangulation vs bgn fin)"
  unfolding trivial_triangulation_def Let_def by (intro safe_intros)

lemma safe_merge_begin: "safe (merge_begin vs a b c d)"
  unfolding merge_begin_def Let_def by (intro safe_intros)

lemma safe_up: "safe (stitch_up_body vs st)"
  unfolding stitch_up_body_def Let_def by (intro safe_intros)

lemma safe_down: "safe (stitch_down_body vs st)"
  unfolding stitch_down_body_def Let_def by (intro safe_intros)


definition safe_result :: "(error + 'a) \<Rightarrow> bool" where
  "safe_result r = (case r of Inl e \<Rightarrow> runtime_error e | Inr _ \<Rightarrow> True)"

lemma safeD: "safe m \<Longrightarrow> safe_result (fst (m ts))"
  unfolding safe_def safe_result_def by (cases "m ts") (auto split: sum.splits)

lemma stitch_up_safe:
  assumes "stitch_up vs st ts = Some r"
  shows "safe_result (fst r)"
proof (rule stitch_up.raw_induct [where P = "\<lambda>vs st ts r. safe_result (fst r)", OF _ assms])
  fix f vs st ts and r :: "(error + unit) \<times> Triangle2 list"
  assume IH: "\<And>vs st ts y. f vs st ts = Some y \<Longrightarrow> safe_result (fst y)"
    and eq: "(case stitch_up_body vs st ts of
               (Inl e, ts') \<Rightarrow> Some (Inl e, ts')
             | (Inr None, ts') \<Rightarrow> Some (Inr (), ts')
             | (Inr (Some st'), ts') \<Rightarrow> f vs st' ts') = Some r"
  show "safe_result (fst r)"
  proof (cases "stitch_up_body vs st ts")
    case (Pair res ts')
    show ?thesis
    proof (cases res)
      case (Inl e)
      with Pair eq safeD [OF safe_up, of vs st ts] show ?thesis
        by (auto simp: safe_result_def)
    next
      case (Inr nxt)
      show ?thesis
      proof (cases nxt)
        case None
        with Pair Inr eq show ?thesis by (auto simp: safe_result_def)
      next
        case (Some st')
        with Pair Inr eq have "f vs st' ts' = Some r" by simp
        then show ?thesis by (rule IH)
      qed
    qed
  qed
qed

lemma stitch_down_safe:
  assumes "stitch_down vs st ts = Some r"
  shows "safe_result (fst r)"
proof (rule stitch_down.raw_induct [where P = "\<lambda>vs st ts r. safe_result (fst r)", OF _ assms])
  fix f vs st ts and r :: "(error + unit) \<times> Triangle2 list"
  assume IH: "\<And>vs st ts y. f vs st ts = Some y \<Longrightarrow> safe_result (fst y)"
    and eq: "(case stitch_down_body vs st ts of
               (Inl e, ts') \<Rightarrow> Some (Inl e, ts')
             | (Inr None, ts') \<Rightarrow> Some (Inr (), ts')
             | (Inr (Some st'), ts') \<Rightarrow> f vs st' ts') = Some r"
  show "safe_result (fst r)"
  proof (cases "stitch_down_body vs st ts")
    case (Pair res ts')
    show ?thesis
    proof (cases res)
      case (Inl e)
      with Pair eq safeD [OF safe_down, of vs st ts] show ?thesis
        by (auto simp: safe_result_def)
    next
      case (Inr nxt)
      show ?thesis
      proof (cases nxt)
        case None
        with Pair Inr eq show ?thesis by (auto simp: safe_result_def)
      next
        case (Some st')
        with Pair Inr eq have "f vs st' ts' = Some r" by simp
        then show ?thesis by (rule IH)
      qed
    qed
  qed
qed

lemma find_ghost_safe:
  assumes "find_ghost first later first_done t ts = Some r"
  shows "safe_result r"
proof (rule find_ghost.raw_induct
    [where P = "\<lambda>first later first_done t ts r. safe_result r", OF _ assms])
  fix f first later first_done t ts and r :: "error + nat"
  assume IH: "\<And>first later first_done t ts y. f first later first_done t ts = Some y
      \<Longrightarrow> safe_result y"
    and eq: "(if t < length ts then
                (case sel3 2 (v (ts ! t)) of
                   None \<Rightarrow> Some (Inr t)
                 | Some _ \<Rightarrow>
                     if first_done then f first later True (sel3 later (n (ts ! t))) ts
                     else f first later True (sel3 first (n (ts ! t))) ts)
              else Some (Inl IndexError)) = Some r"
  from eq IH show "safe_result r"
    by (auto simp: safe_result_def runtime_error_def split: if_splits option.splits)
qed

lemma find_ghosts_safe:
  "find_ghosts a b c d ts = Some r \<Longrightarrow> safe_result r"
  unfolding find_ghosts_def
  by (auto simp: safe_result_def split: option.splits sum.splits dest!: find_ghost_safe)

lemma merge_arbitrary_safe:
  "merge_arbitrary vs a b c d ts = Some r \<Longrightarrow> safe_result (fst r)"
  using safeD [OF safe_merge_begin, of vs a b c d ts]
  unfolding merge_arbitrary_def
  by (auto simp: safe_result_def set_tv_def runtime_error_def
      split: prod.splits sum.splits option.splits if_splits
      dest!: stitch_up_safe stitch_down_safe)

lemma divide_and_conquer_safe:
  "divide_and_conquer vs bgn fin ts = Some r \<Longrightarrow> safe_result (fst r)"
proof (induction vs bgn fin ts arbitrary: r rule: divide_and_conquer.induct)
  case (1 vs bgn fin ts)
  show ?case
  proof (cases "fin - bgn < 4")
    case True
    with 1(3) have "r = trivial_triangulation vs bgn fin ts"
      by (subst (asm) divide_and_conquer.simps) simp
    with safeD [OF safe_trivial, of vs bgn fin ts] show ?thesis by simp
  next
    case False
    define divider where "divider = (fin - bgn) div 2 + bgn"
    have eq: "(case divide_and_conquer vs bgn divider ts of
           None \<Rightarrow> None
         | Some (Inl e, ts1) \<Rightarrow> Some (Inl e, ts1)
         | Some (Inr (tri_l2, tri_l3, tri_l6, tri_l7), ts1) \<Rightarrow>
             (case divide_and_conquer vs divider fin ts1 of
                None \<Rightarrow> None
              | Some (Inl e, ts2) \<Rightarrow> Some (Inl e, ts2)
              | Some (Inr (tri_r2, tri_r3, tri_r6, tri_r7), ts2) \<Rightarrow>
                  (case merge_arbitrary vs tri_l6 tri_l7 tri_r2 tri_r3 ts2 of
                     None \<Rightarrow> None
                   | Some (Inl e, ts3) \<Rightarrow> Some (Inl e, ts3)
                   | Some (Inr _, ts3) \<Rightarrow>
                       (case find_ghosts tri_l2 tri_l3 tri_r6 tri_r7 ts3 of
                          None \<Rightarrow> None
                        | Some r \<Rightarrow> Some (r, ts3))))) = Some r"
      using 1(3) False unfolding divider_def
      by (subst (asm) divide_and_conquer.simps) (simp add: Let_def)
    obtain r1 where r1: "divide_and_conquer vs bgn divider ts = Some r1"
      using eq by (cases "divide_and_conquer vs bgn divider ts") auto
    have s1: "safe_result (fst r1)"
      using 1(1) [OF False refl r1 [unfolded divider_def]] .
    show ?thesis
    proof (cases r1)
      case (Pair res1 ts1)
      show ?thesis
      proof (cases res1)
        case (Inl e)
        with Pair r1 eq s1 show ?thesis by (auto simp: safe_result_def)
      next
        case (Inr q1)
        obtain tri_l2 tri_l3 tri_l6 tri_l7 where q1: "q1 = (tri_l2, tri_l3, tri_l6, tri_l7)"
          by (cases q1) auto
        from eq r1 Pair Inr q1 obtain r2 where
          r2: "divide_and_conquer vs divider fin ts1 = Some r2"
          by (cases "divide_and_conquer vs divider fin ts1") auto
        have r1x: "divide_and_conquer vs bgn ((fin - bgn) div 2 + bgn) ts
            = Some (Inr (tri_l2, tri_l3, tri_l6, tri_l7), ts1)"
          using r1 Pair Inr q1 unfolding divider_def by simp
        have s2: "safe_result (fst r2)"
          by (rule 1(2) [OF False refl r1x refl refl refl refl refl r2 [unfolded divider_def]])
        show ?thesis
        proof (cases r2)
          case P2: (Pair res2 ts2)
          show ?thesis
          proof (cases res2)
            case (Inl e)
            with P2 r1 r2 Pair Inr q1 eq s2 show ?thesis by (auto simp: safe_result_def)
          next
            case I2: (Inr q2)
            obtain tri_r2 tri_r3 tri_r6 tri_r7 where q2: "q2 = (tri_r2, tri_r3, tri_r6, tri_r7)"
              by (cases q2) auto
            from eq r1 r2 Pair Inr q1 P2 I2 q2 obtain r3 where
              r3: "merge_arbitrary vs tri_l6 tri_l7 tri_r2 tri_r3 ts2 = Some r3"
              by (cases "merge_arbitrary vs tri_l6 tri_l7 tri_r2 tri_r3 ts2") auto
            note s3 = merge_arbitrary_safe [OF r3]
            show ?thesis
            proof (cases r3)
              case P3: (Pair res3 ts3)
              show ?thesis
              proof (cases res3)
                case (Inl e)
                with P3 r3 s3 P2 r1 r2 Pair Inr q1 I2 q2 eq show ?thesis
                  by (auto simp: safe_result_def)
              next
                case I3: (Inr u)
                from eq r1 r2 r3 Pair Inr q1 P2 I2 q2 P3 I3 obtain r4 where
                  r4: "find_ghosts tri_l2 tri_l3 tri_r6 tri_r7 ts3 = Some r4"
                  and r: "r = (r4, ts3)"
                  by (cases "find_ghosts tri_l2 tri_l3 tri_r6 tri_r7 ts3") auto
                from find_ghosts_safe [OF r4] r show ?thesis by simp
              qed
            qed
          qed
        qed
      qed
    qed
  qed
qed


definition ghost :: "Triangle2 \<Rightarrow> bool" where
  "ghost t = (sel3 2 (v t) = None)"

definition existent :: "Triangle2 \<Rightarrow> bool" where
  "existent t = (sel3 2 (v t) \<noteq> None)"

definition two_points :: Triangulation2 where
  "two_points = init [\<lparr>oid = 0, x2 = 0, y2 = 0\<rparr>, \<lparr>oid = 1, x2 = 1, y2 = 0\<rparr>] []"

definition two_points_result :: Triangulation2 where
  "two_points_result =
     \<lparr>vertices = [\<lparr>oid = 0, x2 = 0, y2 = 0\<rparr>, \<lparr>oid = 1, x2 = 1, y2 = 0\<rparr>],
      indices = [Some 0, Some 1], segments = [],
      triangles = [\<lparr>v = (Some 0, Some 1, None), n = (1, 1, 1)\<rparr>,
                   \<lparr>v = (Some 1, Some 0, None), n = (0, 0, 0)\<rparr>]\<rparr>"

definition three_points :: Triangulation2 where
  "three_points = init [\<lparr>oid = 0, x2 = 0, y2 = 0\<rparr>, \<lparr>oid = 1, x2 = 1, y2 = 0\<rparr>,
                        \<lparr>oid = 2, x2 = 0, y2 = 1\<rparr>] []"

definition three_points_result :: Triangulation2 where
  "three_points_result =
     \<lparr>vertices = [\<lparr>oid = 0, x2 = 0, y2 = 0\<rparr>, \<lparr>oid = 2, x2 = 0, y2 = 1\<rparr>,
                  \<lparr>oid = 1, x2 = 1, y2 = 0\<rparr>],
      indices = [Some 0, Some 2, Some 1], segments = [],
      triangles = [\<lparr>v = (Some 0, Some 2, Some 1), n = (1, 2, 3)\<rparr>,
                   \<lparr>v = (Some 2, Some 0, None), n = (0, 3, 2)\<rparr>,
                   \<lparr>v = (Some 1, Some 2, None), n = (0, 1, 3)\<rparr>,
                   \<lparr>v = (Some 0, Some 1, None), n = (0, 2, 1)\<rparr>]\<rparr>"

definition equal_points :: Triangulation2 where
  "equal_points = init [\<lparr>oid = 0, x2 = 0, y2 = 0\<rparr>, \<lparr>oid = 1, x2 = 0, y2 = 0\<rparr>] []"

lemma divide_and_conquer_trivial:
  "fin - bgn < 4 \<Longrightarrow>
   divide_and_conquer vs bgn fin ts = Some (trivial_triangulation vs bgn fin ts)"
  by (subst divide_and_conquer.simps) simp

lemma two_points_run:
  "triangulate ARBITRARY VERTICAL two_points = Some (Inr (), two_points_result)"
  by code_simp

lemma three_points_run:
  "triangulate ARBITRARY VERTICAL three_points = Some (Inr (), three_points_result)"
  by code_simp

lemma adjust_segments_safe:
  "adjust_segments idx old new = (Inl e, x) \<Longrightarrow> runtime_error e"
  by (induction idx old new rule: adjust_segments.induct)
     (auto simp: runtime_error_def split: if_splits option.splits)

lemma triangulate_unsupported:
  "merge_method = FLIP \<or> merge_method = DELAUNAY
     \<or> cut_method = HORIZONTAL \<or> cut_method = ALTERNATING \<Longrightarrow>
   triangulate merge_method cut_method s = Some (Inl NOT_IMPLEMENTED, s\<lparr>triangles := []\<rparr>)"
  by (auto simp: triangulate_def Let_def)

section \<open>Triangulation: the concrete scenarios\<close>

text \<open>
  C4. For the two points \<open>(0,0)\<close> and \<open>(1,0)\<close>, \<^verbatim>\<open>triangulate(ARBITRARY, VERTICAL)\<close>
  returns and leaves exactly two triangles, both ghosts and none existent; they carry the
  directed edges \<open>(0,1)\<close> and \<open>(1,0)\<close>, and neighbour 0 of each is the other one.
\<close>

theorem two_points_scenario:
  "triangulate ARBITRARY VERTICAL two_points = Some (Inr (), two_points_result)
   \<and> length (triangles two_points_result) = 2
   \<and> length (filter ghost (triangles two_points_result)) = 2
   \<and> length (filter existent (triangles two_points_result)) = 0
   \<and> v (triangles two_points_result ! 0) = (Some 0, Some 1, None)
   \<and> v (triangles two_points_result ! 1) = (Some 1, Some 0, None)
   \<and> sel3 0 (n (triangles two_points_result ! 0)) = 1
   \<and> sel3 0 (n (triangles two_points_result ! 1)) = 0"
  using two_points_run by (simp add: two_points_result_def ghost_def existent_def)

text \<open>
  C5, as the specification states it: for the three points \<open>(0,0)\<close>, \<open>(1,0)\<close>,
  \<open>(0,1)\<close> the only existent triangle would have the vertex triple \<open>(0,1,2)\<close> in
  the indices of the sorted vertex list. It does not: sorting puts \<open>(0,1)\<close> before
  \<open>(1,0)\<close>, the sorted triple \<open>(0,1,2)\<close> is clockwise, and the code builds the
  counter-clockwise triangle \<open>(0,2,1)\<close>.
\<close>

theorem three_points_not_0_1_2:
  "\<not> (\<exists>s. triangulate ARBITRARY VERTICAL three_points = Some (Inr (), s)
        \<and> map v (filter existent (triangles s)) = [(Some 0, Some 1, Some 2)])"
  using three_points_run by (simp add: three_points_result_def existent_def)

text \<open>
  C5, amended. After \<^verbatim>\<open>triangulate(ARBITRARY, VERTICAL)\<close> on \<open>(0,0)\<close>, \<open>(1,0)\<close>,
  \<open>(0,1)\<close> the sorted vertex list is \<open>(0,0)\<close>, \<open>(0,1)\<close>, \<open>(1,0)\<close>; there is exactly
  one existent triangle, with the vertex triple \<open>(0,2,1)\<close> in the indices of that list,
  and exactly three ghost triangles, one on each of its edges reversed and each with the
  existent triangle as neighbour 0.
\<close>

theorem three_points_scenario:
  "triangulate ARBITRARY VERTICAL three_points = Some (Inr (), three_points_result)
   \<and> map v (filter existent (triangles three_points_result)) = [(Some 0, Some 2, Some 1)]
   \<and> map coords (vertices three_points_result) = [(0, 0), (0, 1), (1, 0)]
   \<and> length (filter ghost (triangles three_points_result)) = 3
   \<and> map (\<lambda>t. (v t, sel3 0 (n t))) (filter ghost (triangles three_points_result))
       = [((Some 2, Some 0, None), 0), ((Some 1, Some 2, None), 0), ((Some 0, Some 1, None), 0)]"
  using three_points_run by (simp add: three_points_result_def ghost_def existent_def coords_def)

section \<open>Triangulation: unsupported modes\<close>

text \<open>
  C6. Whatever the state, \<^verbatim>\<open>triangulate\<close> raises the \<^verbatim>\<open>NOT IMPLEMENTED\<close> exception
  when the merge method is \<open>FLIP\<close> or \<open>DELAUNAY\<close> or the cut method is \<open>HORIZONTAL\<close>
  or \<open>ALTERNATING\<close>, and it never raises that exception for \<open>ARBITRARY\<close> with
  \<open>VERTICAL\<close>.
\<close>

theorem unsupported_mode_raises:
  "(merge_method = FLIP \<or> merge_method = DELAUNAY
      \<or> cut_method = HORIZONTAL \<or> cut_method = ALTERNATING
    \<longrightarrow> (\<exists>s'. triangulate merge_method cut_method s = Some (Inl NOT_IMPLEMENTED, s')))
   \<and> (\<forall>s'. triangulate ARBITRARY VERTICAL s \<noteq> Some (Inl NOT_IMPLEMENTED, s'))"
proof (intro conjI impI allI notI)
  assume "merge_method = FLIP \<or> merge_method = DELAUNAY
      \<or> cut_method = HORIZONTAL \<or> cut_method = ALTERNATING"
  then show "\<exists>s'. triangulate merge_method cut_method s = Some (Inl NOT_IMPLEMENTED, s')"
    by (auto simp: triangulate_unsupported)
next
  fix s'
  assume t: "triangulate ARBITRARY VERTICAL s = Some (Inl NOT_IMPLEMENTED, s')"
  have ni: "\<not> runtime_error NOT_IMPLEMENTED"
    by (simp add: runtime_error_def NOT_IMPLEMENTED_def)
  have srt: "\<And>s0 s1. sort_vertices VERTICAL s0 = (Inl NOT_IMPLEMENTED, s1) \<Longrightarrow> False"
    unfolding sort_vertices_def Let_def
    by (auto simp: ni split: if_splits prod.splits dest!: adjust_segments_safe)
  from t show False
    unfolding triangulate_def Let_def
    by (auto split: prod.splits sum.splits option.splits if_splits
        dest: srt dest!: divide_and_conquer_safe simp: safe_result_def ni)
qed


theorem unsupported_mode_raises_witness:
  "(\<exists>s'. triangulate ARBITRARY HORIZONTAL two_points = Some (Inl NOT_IMPLEMENTED, s'))
   \<and> triangulate ARBITRARY VERTICAL two_points = Some (Inr (), two_points_result)"
  using unsupported_mode_raises [of ARBITRARY HORIZONTAL two_points] two_points_run
  by simp

text \<open>
  C9. A call of \<^verbatim>\<open>triangulate\<close> with an unsupported mode does not leave the state
  unchanged: the exception is raised after the triangle array has been emptied, so a
  triangulation computed before is lost. The other attributes are untouched.
\<close>

theorem unsupported_mode_resets_triangles:
  "merge_method = FLIP \<or> merge_method = DELAUNAY
     \<or> cut_method = HORIZONTAL \<or> cut_method = ALTERNATING \<Longrightarrow>
   \<exists>s'. triangulate merge_method cut_method s = Some (Inl NOT_IMPLEMENTED, s')
     \<and> triangles s' = [] \<and> vertices s' = vertices s
     \<and> indices s' = indices s \<and> segments s' = segments s"
  by (simp add: triangulate_unsupported)

theorem unsupported_mode_resets_triangles_witness:
  "triangles two_points_result \<noteq> []
   \<and> (\<exists>s'. triangulate FLIP VERTICAL two_points_result = Some (Inl NOT_IMPLEMENTED, s')
          \<and> triangles s' = [] \<and> vertices s' = vertices two_points_result)"
  using unsupported_mode_resets_triangles [of FLIP VERTICAL two_points_result]
  by (auto simp: two_points_result_def)

section \<open>Triangulation: duplicates survive the preprocessing\<close>

text \<open>
  C2 (evaluation at the failing input). Two \<^verbatim>\<open>Vector2\<close> objects with the same
  coordinates are distinct objects, \<^verbatim>\<open>==\<close> between them is false, and \<^verbatim>\<open>__sort\<close>
  keeps both: the stored vertex list has two entries with equal coordinates.
\<close>

theorem sort_keeps_equal_coordinates:
  "sort_vertices VERTICAL equal_points =
     (Inr (), \<lparr>vertices = [\<lparr>oid = 0, x2 = 0, y2 = 0\<rparr>, \<lparr>oid = 1, x2 = 0, y2 = 0\<rparr>],
               indices = [Some 0, Some 1], segments = [], triangles = []\<rparr>)
   \<and> \<not> distinct (map coords (vertices (snd (sort_vertices VERTICAL equal_points))))"
  by code_simp

section \<open>BSP polygons, planes and the polygon store\<close>

text \<open>
  \<^verbatim>\<open>bsp3.py\<close>. A \<^verbatim>\<open>BSPVertex3\<close> holds a position; its \<^verbatim>\<open>flip\<close> is \<^verbatim>\<open>pass\<close>
  and nothing assigns \<^verbatim>\<open>pos\<close> after construction, so vertices are values. A
  \<^verbatim>\<open>BSPPolygon3\<close> is a mutable object: \<^verbatim>\<open>flip\<close> reverses its vertex list and negates
  its plane in place, and the same polygon object is handed from list to list by the
  splitting and clipping code. Polygon objects therefore live in an explicit store, a list
  whose positions are the object references; constructing a polygon appends to the store
  and \<^verbatim>\<open>flip\<close> updates one cell. A \<^verbatim>\<open>BSP3\<close> is its list of polygon references, which
  the operations only read. The nodes of a BSP tree are owned by the one local variable
  that holds the tree, and their planes are fresh clones, so a tree is a value that is
  passed along; its polygon lists hold references into the store.
\<close>

unbundle bit_operations_syntax

record BSPVertex3 =
  pos :: Vector3

record BSPPlane3 =
  pnormal :: Vector3
  pw :: double

record 's BSPPolygon3 =
  pvertices :: "BSPVertex3 list"
  shared :: 's
  plane :: BSPPlane3

type_synonym 's heap = "'s BSPPolygon3 list"

datatype BSPNode3 =
  BSPNode3 (nplane: "BSPPlane3 option") (nfront: "BSPNode3 option") (nback: "BSPNode3 option")
    (npolygons: "nat list")

datatype target = CoplanarFront | CoplanarBack | Front | Back

text \<open>
  \<^verbatim>\<open>Vector3.divide\<close> raises \<^verbatim>\<open>ZeroDivisionError\<close> on a zero divisor, which is how
  \<^verbatim>\<open>unit\<close> fails on a vector whose computed length is zero and \<^verbatim>\<open>from_points\<close>
  on three points whose computed cross product is the zero vector. The constructor of
  \<^verbatim>\<open>BSPPolygon3\<close> reads \<^verbatim>\<open>vertices[0]\<close>, \<^verbatim>\<open>[1]\<close>, \<^verbatim>\<open>[2]\<close> (an
  \<^verbatim>\<open>IndexError\<close> on a shorter list) and computes the plane from them. \<^verbatim>\<open>EPSILON\<close>
  is the literal \<^verbatim>\<open>1.e-5\<close>: the double nearest to \<open>10\<^sup>-\<^sup>5\<close>, which is
  \<open>5902958103587057 \<cdot> 2\<^sup>-\<^sup>6\<^sup>9\<close>.
\<close>

definition EPSILON :: double where
  "EPSILON = Finite 5902958103587057 (- 69)"

definition divide3 :: "Vector3 \<Rightarrow> double \<Rightarrow> error + Vector3" where
  "divide3 s a =
     (case truediv (x3 s) a of Inl e \<Rightarrow> Inl e | Inr x \<Rightarrow>
      (case truediv (y3 s) a of Inl e \<Rightarrow> Inl e | Inr y \<Rightarrow>
       (case truediv (z3 s) a of Inl e \<Rightarrow> Inl e | Inr z \<Rightarrow> Inr \<lparr>x3 = x, y3 = y, z3 = z\<rparr>)))"

definition unit3 :: "Vector3 \<Rightarrow> error + Vector3" where
  "unit3 s = (case length3 s of Inl e \<Rightarrow> Inl e | Inr l \<Rightarrow> divide3 s l)"

definition vertex_clone :: "BSPVertex3 \<Rightarrow> BSPVertex3" where
  "vertex_clone vx = \<lparr>pos = pos vx\<rparr>"

definition interpolate :: "BSPVertex3 \<Rightarrow> BSPVertex3 \<Rightarrow> double \<Rightarrow> BSPVertex3" where
  "interpolate vx other t = \<lparr>pos = lerp3 (pos vx) (pos other) t\<rparr>"

definition plane_clone :: "BSPPlane3 \<Rightarrow> BSPPlane3" where
  "plane_clone P = \<lparr>pnormal = pnormal P, pw = pw P\<rparr>"

definition plane_flip :: "BSPPlane3 \<Rightarrow> BSPPlane3" where
  "plane_flip P = \<lparr>pnormal = negated3 (pnormal P), pw = - pw P\<rparr>"

definition from_points :: "Vector3 \<Rightarrow> Vector3 \<Rightarrow> Vector3 \<Rightarrow> error + BSPPlane3" where
  "from_points a b c =
     (case unit3 (cross3 (minus3 b a) (minus3 c a)) of
        Inl e \<Rightarrow> Inl e
      | Inr nrm \<Rightarrow> Inr \<lparr>pnormal = nrm, pw = dot3 nrm a\<rparr>)"

definition new_polygon :: "BSPVertex3 list \<Rightarrow> 's \<Rightarrow> ('s heap, nat) exn_m" where
  "new_polygon verts sh h =
     (if length verts < 3 then (Inl IndexError, h)
      else
        (case from_points (pos (verts ! 0)) (pos (verts ! 1)) (pos (verts ! 2)) of
           Inl e \<Rightarrow> (Inl e, h)
         | Inr P \<Rightarrow> (Inr (length h), h @ [\<lparr>pvertices = verts, shared = sh, plane = P\<rparr>])))"

definition polygon_clone :: "nat \<Rightarrow> ('s heap, nat) exn_m" where
  "polygon_clone a h = new_polygon (map vertex_clone (pvertices (h ! a))) (shared (h ! a)) h"

definition polygon_flip :: "nat \<Rightarrow> 's heap \<Rightarrow> 's heap" where
  "polygon_flip a h =
     h[a := (h ! a)\<lparr>pvertices := rev (pvertices (h ! a)), plane := plane_flip (plane (h ! a))\<rparr>]"

subsection \<open>Splitting a polygon by a plane\<close>

text \<open>
  \<^verbatim>\<open>split_polygon\<close> appends to four lists that its callers pass, two of which may be
  the same list. Its model returns, in the order of the appends, which list receives
  which polygon; \<open>sent_to\<close> then reads off what one list of the caller has received.
  \<open>span_loop\<close> is the loop over the ring of a spanning polygon and \<open>emit_pieces\<close>
  the two conditional constructions that follow it.
\<close>

definition vertex_type :: "BSPPlane3 \<Rightarrow> BSPVertex3 \<Rightarrow> nat" where
  "vertex_type P vx =
     (let t = dot3 (pnormal P) (pos vx) - pw P
      in if t < - EPSILON then 2 else if t > EPSILON then 1 else 0)"

fun span_loop :: "BSPPlane3 \<Rightarrow> BSPVertex3 list \<Rightarrow> nat list \<Rightarrow> nat list
    \<Rightarrow> BSPVertex3 list \<times> BSPVertex3 list \<Rightarrow> error + BSPVertex3 list \<times> BSPVertex3 list" where
  "span_loop P verts types [] fb = Inr fb"
| "span_loop P verts types (i # rest) fb =
     (let num_vertices = length verts;
          j = (i + 1) mod num_vertices;
          ti = types ! i; tj = types ! j;
          vi = verts ! i; vj = verts ! j;
          f1 = (if ti \<noteq> 2 then fst fb @ [vi] else fst fb);
          b1 = (if ti \<noteq> 1 then (if ti \<noteq> 2 then snd fb @ [vertex_clone vi] else snd fb @ [vi])
                else snd fb)
      in if (ti OR tj) = 3 then
           (case truediv (pw P - dot3 (pnormal P) (pos vi))
                   (dot3 (pnormal P) (minus3 (pos vj) (pos vi))) of
              Inl e \<Rightarrow> Inl e
            | Inr t \<Rightarrow>
                let vx = interpolate vi vj t
                in span_loop P verts types rest (f1 @ [vx], b1 @ [vertex_clone vx]))
         else span_loop P verts types rest (f1, b1))"

definition emit_pieces :: "BSPVertex3 list \<Rightarrow> BSPVertex3 list \<Rightarrow> 's
    \<Rightarrow> ('s heap, (target \<times> nat) list) exn_m" where
  "emit_pieces f b sh =
     bnd (if length f \<ge> 3 then bnd (new_polygon f sh) (\<lambda>p. ret [(Front, p)]) else ret [])
       (\<lambda>ef.
     bnd (if length b \<ge> 3 then bnd (new_polygon b sh) (\<lambda>p. ret [(Back, p)]) else ret [])
       (\<lambda>eb. ret (ef @ eb)))"

definition split_polygon :: "BSPPlane3 \<Rightarrow> nat \<Rightarrow> ('s heap, (target \<times> nat) list) exn_m" where
  "split_polygon P a h =
     (let polygon = h ! a;
          types = map (vertex_type P) (pvertices polygon);
          polygon_type = foldl (OR) 0 types
      in if polygon_type = 0 then
           (if dot3 (pnormal P) (pnormal (plane polygon)) > 0
            then (Inr [(CoplanarFront, a)], h) else (Inr [(CoplanarBack, a)], h))
         else if polygon_type = 1 then (Inr [(Front, a)], h)
         else if polygon_type = 2 then (Inr [(Back, a)], h)
         else if polygon_type = 3 then
           (case span_loop P (pvertices polygon) types [0..<length (pvertices polygon)] ([], []) of
              Inl e \<Rightarrow> (Inl e, h)
            | Inr (f, b) \<Rightarrow> emit_pieces f b (shared polygon) h)
         else (Inr [], h))"

fun split_all :: "BSPPlane3 \<Rightarrow> nat list \<Rightarrow> (target \<times> nat) list
    \<Rightarrow> ('s heap, (target \<times> nat) list) exn_m" where
  "split_all P [] evs h = (Inr evs, h)"
| "split_all P (a # rest) evs h =
     (case split_polygon P a h of
        (Inl e, h1) \<Rightarrow> (Inl e, h1)
      | (Inr new, h1) \<Rightarrow> split_all P rest (evs @ new) h1)"

definition sent_to :: "target set \<Rightarrow> (target \<times> nat) list \<Rightarrow> nat list" where
  "sent_to T evs = map snd (filter (\<lambda>e. fst e \<in> T) evs)"

subsection \<open>The nodes of the tree\<close>

text \<open>
  \<^verbatim>\<open>all_polygons\<close>, \<^verbatim>\<open>invert\<close>, \<^verbatim>\<open>clip_polygons\<close> and \<^verbatim>\<open>clip_to\<close> recurse on the
  tree. \<^verbatim>\<open>build\<close> recurses on the polygons it sends to the front and to the back,
  which are fewer than the polygons it was given: that is its termination argument.
\<close>

fun all_polygons :: "BSPNode3 \<Rightarrow> nat list" where
  "all_polygons (BSPNode3 P f b ps) =
     ps @ (case f of None \<Rightarrow> [] | Some fn \<Rightarrow> all_polygons fn)
        @ (case b of None \<Rightarrow> [] | Some bn \<Rightarrow> all_polygons bn)"

fun invert :: "BSPNode3 \<Rightarrow> 's heap \<Rightarrow> BSPNode3 \<times> 's heap" where
  "invert (BSPNode3 P f b ps) h =
     (let h1 = fold polygon_flip ps h;
          P1 = map_option plane_flip P;
          r1 = (case f of None \<Rightarrow> (None, h1)
                | Some fn \<Rightarrow> (case invert fn h1 of (fn1, h2) \<Rightarrow> (Some fn1, h2)));
          r2 = (case b of None \<Rightarrow> (None, snd r1)
                | Some bn \<Rightarrow> (case invert bn (snd r1) of (bn1, h3) \<Rightarrow> (Some bn1, h3)))
      in (BSPNode3 P1 (fst r2) (fst r1) ps, snd r2))"

fun clip_polygons :: "BSPNode3 \<Rightarrow> nat list \<Rightarrow> ('s heap, nat list) exn_m" where
  "clip_polygons (BSPNode3 P f b ps) polys h =
     (case P of
        None \<Rightarrow> (Inr polys, h)
      | Some Pl \<Rightarrow>
          (case split_all Pl polys [] h of
             (Inl e, h1) \<Rightarrow> (Inl e, h1)
           | (Inr evs, h1) \<Rightarrow>
               (case (case f of None \<Rightarrow> (Inr (sent_to {CoplanarFront, Front} evs), h1)
                      | Some fn \<Rightarrow> clip_polygons fn (sent_to {CoplanarFront, Front} evs) h1) of
                  (Inl e, h2) \<Rightarrow> (Inl e, h2)
                | (Inr front1, h2) \<Rightarrow>
                    (case (case b of None \<Rightarrow> (Inr [], h2)
                           | Some bn \<Rightarrow> clip_polygons bn (sent_to {CoplanarBack, Back} evs) h2) of
                       (Inl e, h3) \<Rightarrow> (Inl e, h3)
                     | (Inr back1, h3) \<Rightarrow> (Inr (front1 @ back1), h3)))))"

fun clip_to :: "BSPNode3 \<Rightarrow> BSPNode3 \<Rightarrow> ('s heap, BSPNode3) exn_m" where
  "clip_to (BSPNode3 P f b ps) bsp h =
     (case clip_polygons bsp ps h of
        (Inl e, h1) \<Rightarrow> (Inl e, h1)
      | (Inr ps1, h1) \<Rightarrow>
          (case (case f of None \<Rightarrow> (Inr None, h1)
                 | Some fn \<Rightarrow> (case clip_to fn bsp h1 of
                                (Inl e, h2) \<Rightarrow> (Inl e, h2)
                              | (Inr fn1, h2) \<Rightarrow> (Inr (Some fn1), h2))) of
             (Inl e, h2) \<Rightarrow> (Inl e, h2)
           | (Inr f1, h2) \<Rightarrow>
               (case (case b of None \<Rightarrow> (Inr None, h2)
                      | Some bn \<Rightarrow> (case clip_to bn bsp h2 of
                                     (Inl e, h3) \<Rightarrow> (Inl e, h3)
                                   | (Inr bn1, h3) \<Rightarrow> (Inr (Some bn1), h3))) of
                  (Inl e, h3) \<Rightarrow> (Inl e, h3)
                | (Inr b1, h3) \<Rightarrow> (Inr (BSPNode3 P f1 b1 ps1), h3))))"

lemma split_polygon_count:
  assumes "split_polygon P a h = (Inr new, h1)"
  shows "length (sent_to {Front} new) \<le> 1 \<and> length (sent_to {Back} new) \<le> 1"
  using assms unfolding split_polygon_def emit_pieces_def Let_def sent_to_def bnd_def ret_def
  by (auto split: if_splits sum.splits prod.splits)

lemma split_all_count:
  "split_all P polys evs h = (Inr evs1, h1) \<Longrightarrow>
   length (sent_to {Front} evs1) \<le> length (sent_to {Front} evs) + length polys
   \<and> length (sent_to {Back} evs1) \<le> length (sent_to {Back} evs) + length polys"
proof (induction polys arbitrary: evs h)
  case Nil
  then show ?case by simp
next
  case (Cons a rest)
  from Cons.prems obtain new h0 where sp: "split_polygon P a h = (Inr new, h0)"
    and rec: "split_all P rest (evs @ new) h0 = (Inr evs1, h1)"
    by (auto split: prod.splits sum.splits)
  from split_polygon_count [OF sp] Cons.IH [OF rec] show ?case
    by (simp add: sent_to_def)
qed

lemma split_all_shorter:
  assumes "(Inr evs1, h1) = split_all P polys [] h"
  shows "length (filter (\<lambda>e. fst e = Front) evs1) < Suc (length polys)"
    and "length (filter (\<lambda>e. fst e = Back) evs1) < Suc (length polys)"
  using split_all_count [OF assms [symmetric]] by (simp_all add: sent_to_def)

definition empty_node :: BSPNode3 where
  "empty_node = BSPNode3 None None None []"

function build :: "BSPNode3 \<Rightarrow> nat list \<Rightarrow> ('s heap, BSPNode3) exn_m" where
  "build (BSPNode3 P f b ps) polys h =
     (case polys of
        [] \<Rightarrow> (Inr (BSPNode3 P f b ps), h)
      | p0 # rest \<Rightarrow>
          let Pl = (case P of None \<Rightarrow> plane_clone (plane (h ! p0)) | Some Q \<Rightarrow> Q) in
          (case split_all Pl rest [] h of
             (Inl e, h1) \<Rightarrow> (Inl e, h1)
           | (Inr evs, h1) \<Rightarrow>
               let ps1 = ps @ [p0] @ sent_to {CoplanarFront, CoplanarBack} evs;
                   fr = sent_to {Front} evs;
                   bk = sent_to {Back} evs
               in
               (case (if fr \<noteq> [] then
                        (case build (case f of None \<Rightarrow> empty_node | Some fn \<Rightarrow> fn) fr h1 of
                           (Inl e, h2) \<Rightarrow> (Inl e, h2)
                         | (Inr fn1, h2) \<Rightarrow> (Inr (Some fn1), h2))
                      else (Inr f, h1)) of
                  (Inl e, h2) \<Rightarrow> (Inl e, h2)
                | (Inr f1, h2) \<Rightarrow>
                    (case (if bk \<noteq> [] then
                             (case build (case b of None \<Rightarrow> empty_node | Some bn \<Rightarrow> bn) bk h2 of
                                (Inl e, h3) \<Rightarrow> (Inl e, h3)
                              | (Inr bn1, h3) \<Rightarrow> (Inr (Some bn1), h3))
                           else (Inr b, h2)) of
                       (Inl e, h3) \<Rightarrow> (Inl e, h3)
                     | (Inr b1, h3) \<Rightarrow> (Inr (BSPNode3 (Some Pl) f1 b1 ps1), h3)))))"
  by pat_completeness auto

termination
  by (relation "measure (\<lambda>(nd, polys, h). length polys)")
     (auto simp: sent_to_def split_all_shorter)

declare build.simps [simp del]

subsection \<open>The operations of \<^verbatim>\<open>BSP3\<close>\<close>

fun clone_all :: "nat list \<Rightarrow> ('s heap, nat list) exn_m" where
  "clone_all [] h = (Inr [], h)"
| "clone_all (a # rest) h =
     (case polygon_clone a h of
        (Inl e, h1) \<Rightarrow> (Inl e, h1)
      | (Inr c, h1) \<Rightarrow>
          (case clone_all rest h1 of
             (Inl e, h2) \<Rightarrow> (Inl e, h2)
           | (Inr cs, h2) \<Rightarrow> (Inr (c # cs), h2)))"

definition bsp_clone :: "nat list \<Rightarrow> ('s heap, nat list) exn_m" where
  "bsp_clone self = clone_all self"

definition from_polygons :: "nat list \<Rightarrow> nat list" where
  "from_polygons polys = polys"

definition new_node :: "nat list \<Rightarrow> ('s heap, BSPNode3) exn_m" where
  "new_node polys = (if length polys > 0 then build empty_node polys else ret empty_node)"

definition invert_m :: "BSPNode3 \<Rightarrow> ('s heap, BSPNode3) exn_m" where
  "invert_m nd h = (case invert nd h of (nd1, h1) \<Rightarrow> (Inr nd1, h1))"

definition bsp_union :: "nat list \<Rightarrow> nat list \<Rightarrow> ('s heap, nat list) exn_m" where
  "bsp_union self bsp =
     bnd (bsp_clone self) (\<lambda>ca. bnd (new_node ca) (\<lambda>a.
     bnd (bsp_clone bsp) (\<lambda>cb. bnd (new_node cb) (\<lambda>b.
     bnd (clip_to a b) (\<lambda>a.
     bnd (clip_to b a) (\<lambda>b.
     bnd (invert_m b) (\<lambda>b.
     bnd (clip_to b a) (\<lambda>b.
     bnd (invert_m b) (\<lambda>b.
     bnd (build a (all_polygons b)) (\<lambda>a.
     ret (from_polygons (all_polygons a))))))))))))"

definition bsp_subtract :: "nat list \<Rightarrow> nat list \<Rightarrow> ('s heap, nat list) exn_m" where
  "bsp_subtract self bsp =
     bnd (bsp_clone self) (\<lambda>ca. bnd (new_node ca) (\<lambda>a.
     bnd (bsp_clone bsp) (\<lambda>cb. bnd (new_node cb) (\<lambda>b.
     bnd (invert_m a) (\<lambda>a.
     bnd (clip_to a b) (\<lambda>a.
     bnd (clip_to b a) (\<lambda>b.
     bnd (invert_m b) (\<lambda>b.
     bnd (clip_to b a) (\<lambda>b.
     bnd (invert_m b) (\<lambda>b.
     bnd (build a (all_polygons b)) (\<lambda>a.
     bnd (invert_m a) (\<lambda>a.
     ret (from_polygons (all_polygons a))))))))))))))"

definition bsp_intersect :: "nat list \<Rightarrow> nat list \<Rightarrow> ('s heap, nat list) exn_m" where
  "bsp_intersect self bsp =
     bnd (bsp_clone self) (\<lambda>ca. bnd (new_node ca) (\<lambda>a.
     bnd (bsp_clone bsp) (\<lambda>cb. bnd (new_node cb) (\<lambda>b.
     bnd (invert_m a) (\<lambda>a.
     bnd (clip_to b a) (\<lambda>b.
     bnd (invert_m b) (\<lambda>b.
     bnd (clip_to a b) (\<lambda>a.
     bnd (clip_to b a) (\<lambda>b.
     bnd (build a (all_polygons b)) (\<lambda>a.
     bnd (invert_m a) (\<lambda>a.
     ret (from_polygons (all_polygons a)))))))))))))"

definition bsp_inverse :: "nat list \<Rightarrow> ('s heap, nat list) exn_m" where
  "bsp_inverse self =
     bnd (bsp_clone self) (\<lambda>bsp h. (Inr bsp, fold polygon_flip bsp h))"

subsection \<open>What the statements about the store are made of\<close>

text \<open>
  \<open>unchanged_below n0 h h1\<close>: the store \<open>h1\<close> has every cell of \<open>h\<close> below
  \<open>n0\<close> with the same content. \<open>frame n0 m A\<close>: run from a store with at least
  \<open>n0\<close> cells, \<open>m\<close> leaves the cells below \<open>n0\<close> as they are, also when it raises,
  and every reference \<open>A\<close> finds in its result is at least \<open>n0\<close>.
\<close>

definition unchanged_below :: "nat \<Rightarrow> 's heap \<Rightarrow> 's heap \<Rightarrow> bool" where
  "unchanged_below n0 h h1 = (length h \<le> length h1 \<and> (\<forall>a<n0. h1 ! a = h ! a))"

definition node_addrs :: "BSPNode3 \<Rightarrow> nat set" where
  "node_addrs nd = set (all_polygons nd)"

definition opt_addrs :: "BSPNode3 option \<Rightarrow> nat set" where
  "opt_addrs x = (case x of None \<Rightarrow> {} | Some nd \<Rightarrow> node_addrs nd)"

definition ev_addrs :: "(target \<times> nat) list \<Rightarrow> nat set" where
  "ev_addrs evs = snd ` set evs"

definition frame :: "nat \<Rightarrow> ('s heap, 'a) exn_m \<Rightarrow> ('a \<Rightarrow> nat set) \<Rightarrow> bool" where
  "frame n0 m A =
     (\<forall>h r h1. n0 \<le> length h \<and> m h = (r, h1) \<longrightarrow>
        unchanged_below n0 h h1 \<and> (\<forall>x. r = Inr x \<longrightarrow> (\<forall>a\<in>A x. n0 \<le> a)))"

definition poly_key :: "'s heap \<Rightarrow> nat \<Rightarrow> Vector3 list \<times> 's" where
  "poly_key h a = (map pos (pvertices (h ! a)), shared (h ! a))"

definition first_three_ok :: "BSPVertex3 list \<Rightarrow> bool" where
  "first_three_ok verts =
     (3 \<le> length verts \<and>
      (case from_points (pos (verts ! 0)) (pos (verts ! 1)) (pos (verts ! 2)) of
         Inl e \<Rightarrow> False | Inr P \<Rightarrow> True))"

definition flip_value :: "'s BSPPolygon3 \<Rightarrow> 's BSPPolygon3" where
  "flip_value p = p\<lparr>pvertices := rev (pvertices p), plane := plane_flip (plane p)\<rparr>"

definition triangle_face :: "unit heap" where
  "triangle_face = [\<lparr>pvertices = [\<lparr>pos = \<lparr>x3 = 0, y3 = 0, z3 = 0\<rparr>\<rparr>, \<lparr>pos = \<lparr>x3 = 1, y3 = 0, z3 = 0\<rparr>\<rparr>,
                              \<lparr>pos = \<lparr>x3 = 0, y3 = 1, z3 = 0\<rparr>\<rparr>],
                 shared = (), plane = \<lparr>pnormal = \<lparr>x3 = 0, y3 = 0, z3 = 1\<rparr>, pw = 0\<rparr>\<rparr>]"

definition degenerate_quad :: "unit heap" where
  "degenerate_quad =
     [\<lparr>pvertices = [\<lparr>pos = \<lparr>x3 = 0, y3 = 0, z3 = 0\<rparr>\<rparr>, \<lparr>pos = \<lparr>x3 = 1, y3 = 0, z3 = 0\<rparr>\<rparr>,
                    \<lparr>pos = \<lparr>x3 = 0, y3 = 1, z3 = 0\<rparr>\<rparr>, \<lparr>pos = \<lparr>x3 = - 1, y3 = D 2, z3 = 0\<rparr>\<rparr>],
       shared = (), plane = \<lparr>pnormal = \<lparr>x3 = 0, y3 = 0, z3 = 1\<rparr>, pw = 0\<rparr>\<rparr>]"

section \<open>BSP: the operations work on clones\<close>

lemma unchanged_below_refl: "unchanged_below n0 h h"
  by (simp add: unchanged_below_def)

lemma unchanged_below_trans:
  "unchanged_below n0 h h1 \<Longrightarrow> unchanged_below n0 h1 h2 \<Longrightarrow> unchanged_below n0 h h2"
  by (auto simp: unchanged_below_def)

lemma unchanged_below_append: "n0 \<le> length h \<Longrightarrow> unchanged_below n0 h (h @ zs)"
  by (simp add: unchanged_below_def nth_append)

lemma frameI:
  assumes "\<And>h r h1. n0 \<le> length h \<Longrightarrow> m h = (r, h1) \<Longrightarrow> unchanged_below n0 h h1"
    and "\<And>h x h1. n0 \<le> length h \<Longrightarrow> m h = (Inr x, h1) \<Longrightarrow> \<forall>a\<in>A x. n0 \<le> a"
  shows "frame n0 m A"
  using assms unfolding frame_def by blast

lemma frameD1: "frame n0 m A \<Longrightarrow> n0 \<le> length h \<Longrightarrow> m h = (r, h1) \<Longrightarrow> unchanged_below n0 h h1"
  unfolding frame_def by blast

lemma frameD2:
  "frame n0 m A \<Longrightarrow> n0 \<le> length h \<Longrightarrow> m h = (Inr x, h1) \<Longrightarrow> a \<in> A x \<Longrightarrow> n0 \<le> a"
  unfolding frame_def by blast

lemma frameD3: "frame n0 m A \<Longrightarrow> n0 \<le> length h \<Longrightarrow> m h = (r, h1) \<Longrightarrow> n0 \<le> length h1"
  unfolding frame_def unchanged_below_def by fastforce

lemma frame_ret: "(\<And>a. a \<in> A x \<Longrightarrow> n0 \<le> a) \<Longrightarrow> frame n0 (ret x) A"
  by (auto simp: frame_def ret_def unchanged_below_refl)

lemma frame_bnd:
  assumes m: "frame n0 m A"
    and f: "\<And>x. (\<forall>a\<in>A x. n0 \<le> a) \<Longrightarrow> frame n0 (f x) B"
  shows "frame n0 (bnd m f) B"
proof (rule frameI)
  fix h r h1
  assume n0: "n0 \<le> length h" and run: "bnd m f h = (r, h1)"
  obtain r0 h0 where m0: "m h = (r0, h0)" by (cases "m h")
  note u0 = frameD1 [OF m n0 m0] and l0 = frameD3 [OF m n0 m0]
  show "unchanged_below n0 h h1"
  proof (cases r0)
    case (Inl e)
    with run m0 u0 show ?thesis by (simp add: bnd_def)
  next
    case (Inr x)
    with m0 have mx: "m h = (Inr x, h0)" by simp
    have fx: "frame n0 (f x) B" using frameD2 [OF m n0 mx] by (intro f) blast
    from run m0 Inr have "f x h0 = (r, h1)" by (simp add: bnd_def)
    from frameD1 [OF fx l0 this] u0 show ?thesis by (rule unchanged_below_trans [rotated])
  qed
next
  fix h y h1
  assume n0: "n0 \<le> length h" and run: "bnd m f h = (Inr y, h1)"
  obtain r0 h0 where m0: "m h = (r0, h0)" by (cases "m h")
  note l0 = frameD3 [OF m n0 m0]
  show "\<forall>a\<in>B y. n0 \<le> a"
  proof (cases r0)
    case (Inl e)
    with run m0 show ?thesis by (simp add: bnd_def)
  next
    case (Inr x)
    with m0 have mx: "m h = (Inr x, h0)" by simp
    have fx: "frame n0 (f x) B" using frameD2 [OF m n0 mx] by (intro f) blast
    from run m0 Inr have "f x h0 = (Inr y, h1)" by (simp add: bnd_def)
    from frameD2 [OF fx l0 this] show ?thesis by blast
  qed
qed

lemma frame_new_polygon: "frame n0 (new_polygon verts sh) (\<lambda>a. {a})"
  by (rule frameI)
     (auto simp: new_polygon_def unchanged_below_refl unchanged_below_append
       split: if_splits sum.splits)

lemma frame_polygon_clone: "frame n0 (polygon_clone a) (\<lambda>c. {c})"
  by (rule frameI)
     (auto simp: polygon_clone_def new_polygon_def unchanged_below_refl unchanged_below_append
       split: if_splits sum.splits)

lemma frame_clone_all: "frame n0 (clone_all A) set"
proof (induction A)
  case Nil
  show ?case by (rule frameI) (auto simp: unchanged_below_refl)
next
  case (Cons a rest)
  have eq: "clone_all (a # rest) =
      bnd (polygon_clone a) (\<lambda>c. bnd (clone_all rest) (\<lambda>cs. ret (c # cs)))"
    by (rule ext) (auto simp: bnd_def ret_def split: prod.splits sum.splits)
  show ?case unfolding eq
    by (intro frame_bnd [OF frame_polygon_clone] frame_bnd [OF Cons.IH] frame_ret) auto
qed

lemma ev_addrs_simps [simp]:
  "ev_addrs [] = {}" "ev_addrs ((t, a) # evs) = insert a (ev_addrs evs)"
  "ev_addrs (evs @ evs1) = ev_addrs evs \<union> ev_addrs evs1"
  by (auto simp: ev_addrs_def)

lemma sent_to_subset: "set (sent_to T evs) \<subseteq> ev_addrs evs"
  by (auto simp: sent_to_def ev_addrs_def)

lemma frame_emit_pieces: "frame n0 (emit_pieces f b sh) ev_addrs"
proof -
  have opt: "\<And>c verts T. frame n0 (if c then bnd (new_polygon verts sh) (\<lambda>p. ret [(T, p)])
      else ret []) ev_addrs"
    by (auto intro!: frame_bnd [OF frame_new_polygon] frame_ret)
  show ?thesis unfolding emit_pieces_def
    by (intro frame_bnd [OF opt] frame_ret) auto
qed

lemma frame_split_polygon:
  assumes "n0 \<le> a"
  shows "frame n0 (split_polygon P a) ev_addrs"
proof (rule frameI)
  fix h :: "'a heap" and r h1
  assume n0: "n0 \<le> length h" and run: "split_polygon P a h = (r, h1)"
  from run show "unchanged_below n0 h h1"
    unfolding split_polygon_def Let_def
    by (auto simp: unchanged_below_refl split: if_splits sum.splits prod.splits
        dest: frameD1 [OF frame_emit_pieces n0])
next
  fix h :: "'a heap" and x h1
  assume n0: "n0 \<le> length h" and run: "split_polygon P a h = (Inr x, h1)"
  from run assms show "\<forall>a\<in>ev_addrs x. n0 \<le> a"
    unfolding split_polygon_def Let_def
    by (auto split: if_splits sum.splits prod.splits dest: frameD2 [OF frame_emit_pieces n0])
qed

lemma frame_split_all:
  assumes "\<forall>a\<in>set polys. n0 \<le> a" "\<forall>a\<in>ev_addrs evs. n0 \<le> a"
  shows "frame n0 (split_all P polys evs) ev_addrs"
  using assms
proof (induction polys arbitrary: evs)
  case Nil
  then show ?case by (auto intro!: frameI simp: unchanged_below_refl)
next
  case (Cons a rest)
  have eq: "split_all P (a # rest) evs =
      bnd (split_polygon P a) (\<lambda>new. split_all P rest (evs @ new))"
    by (rule ext) (auto simp: bnd_def split: prod.splits sum.splits)
  show ?case unfolding eq
    using Cons.prems
    by (intro frame_bnd [OF frame_split_polygon] Cons.IH) auto
qed

lemma frame_case_option:
  "(x = None \<Longrightarrow> frame n0 m A) \<Longrightarrow> (\<And>y. x = Some y \<Longrightarrow> frame n0 (f y) A) \<Longrightarrow>
   frame n0 (case x of None \<Rightarrow> m | Some y \<Rightarrow> f y) A"
  by (cases x) auto

lemma clip_polygons_bnd:
  "clip_polygons (BSPNode3 P f b ps) polys =
     (case P of
        None \<Rightarrow> ret polys
      | Some Pl \<Rightarrow>
          bnd (split_all Pl polys []) (\<lambda>evs.
          bnd (case f of None \<Rightarrow> ret (sent_to {CoplanarFront, Front} evs)
               | Some fn \<Rightarrow> clip_polygons fn (sent_to {CoplanarFront, Front} evs)) (\<lambda>front1.
          bnd (case b of None \<Rightarrow> ret []
               | Some bn \<Rightarrow> clip_polygons bn (sent_to {CoplanarBack, Back} evs)) (\<lambda>back1.
          ret (front1 @ back1)))))"
  by (rule ext) (auto simp: bnd_def ret_def split: prod.splits sum.splits option.splits)

lemma frame_clip_polygons:
  "\<forall>a\<in>set polys. n0 \<le> a \<Longrightarrow>
   frame n0 (clip_polygons nd polys :: ('s heap, nat list) exn_m) set"
proof (induction nd arbitrary: polys)
  case (BSPNode3 P f b ps)
  have sub: "\<And>T evs. \<forall>a\<in>ev_addrs evs. n0 \<le> a \<Longrightarrow> \<forall>a\<in>set (sent_to T evs). n0 \<le> a"
    using sent_to_subset by blast
  have fr: "frame n0 ((case f of None \<Rightarrow> ret (sent_to {CoplanarFront, Front} evs)
               | Some fn \<Rightarrow> clip_polygons fn (sent_to {CoplanarFront, Front} evs))
                 :: ('s heap, nat list) exn_m) set"
    if "\<forall>a\<in>ev_addrs evs. n0 \<le> a" for evs
  proof (cases f)
    case None
    then show ?thesis using sub [OF that] by (auto intro!: frame_ret)
  next
    case (Some fn)
    then show ?thesis using BSPNode3.IH(1) [of fn, OF _ sub [OF that]] by simp
  qed
  have bk: "frame n0 ((case b of None \<Rightarrow> ret []
               | Some bn \<Rightarrow> clip_polygons bn (sent_to {CoplanarBack, Back} evs))
                 :: ('s heap, nat list) exn_m) set"
    if "\<forall>a\<in>ev_addrs evs. n0 \<le> a" for evs
  proof (cases b)
    case None
    then show ?thesis by (auto intro!: frame_ret)
  next
    case (Some bn)
    then show ?thesis using BSPNode3.IH(2) [of bn, OF _ sub [OF that]] by simp
  qed
  show ?case
  proof (cases P)
    case None
    then show ?thesis unfolding clip_polygons_bnd using BSPNode3.prems
      by (auto intro!: frame_ret)
  next
    case (Some Pl)
    have sa: "frame n0 (split_all Pl polys [] :: ('s heap, (target \<times> nat) list) exn_m) ev_addrs"
      using BSPNode3.prems by (intro frame_split_all) auto
    show ?thesis unfolding clip_polygons_bnd Some option.case
      by (intro frame_bnd [OF sa] frame_bnd [OF fr] frame_bnd [OF bk] frame_ret) auto
  qed
qed

lemma clip_to_bnd:
  "clip_to (BSPNode3 P f b ps) bsp =
     bnd (clip_polygons bsp ps) (\<lambda>ps1.
     bnd (case f of None \<Rightarrow> ret None
          | Some fn \<Rightarrow> bnd (clip_to fn bsp) (\<lambda>fn1. ret (Some fn1))) (\<lambda>f1.
     bnd (case b of None \<Rightarrow> ret None
          | Some bn \<Rightarrow> bnd (clip_to bn bsp) (\<lambda>bn1. ret (Some bn1))) (\<lambda>b1.
     ret (BSPNode3 P f1 b1 ps1))))"
  by (rule ext) (auto simp: bnd_def ret_def split: prod.splits sum.splits option.splits)

lemma node_addrs_simp [simp]:
  "node_addrs (BSPNode3 P f b ps) = set ps \<union> opt_addrs f \<union> opt_addrs b"
  by (auto simp: node_addrs_def opt_addrs_def split: option.splits)

lemma opt_addrs_simps [simp]: "opt_addrs None = {}" "opt_addrs (Some nd) = node_addrs nd"
  by (simp_all add: opt_addrs_def)

lemma frame_clip_to:
  "\<forall>a\<in>node_addrs nd. n0 \<le> a \<Longrightarrow>
   frame n0 (clip_to nd bsp :: ('s heap, BSPNode3) exn_m) node_addrs"
proof (induction nd)
  case (BSPNode3 P f b ps)
  have child: "\<And>c. c \<in> set_option f \<or> c \<in> set_option b \<Longrightarrow> \<forall>a\<in>node_addrs c. n0 \<le> a"
    using BSPNode3.prems by (auto simp: opt_addrs_def split: option.splits)
  have fr: "frame n0 ((case f of None \<Rightarrow> ret None
          | Some fn \<Rightarrow> bnd (clip_to fn bsp) (\<lambda>fn1. ret (Some fn1)))
            :: ('s heap, BSPNode3 option) exn_m) opt_addrs"
  proof (cases f)
    case None
    then show ?thesis by (auto intro!: frame_ret)
  next
    case (Some fn)
    have "frame n0 (clip_to fn bsp :: ('s heap, BSPNode3) exn_m) node_addrs"
      using Some child [of fn] by (intro BSPNode3.IH(1)) auto
    then show ?thesis unfolding Some option.case
      by (intro frame_bnd frame_ret) auto
  qed
  have bk: "frame n0 ((case b of None \<Rightarrow> ret None
          | Some bn \<Rightarrow> bnd (clip_to bn bsp) (\<lambda>bn1. ret (Some bn1)))
            :: ('s heap, BSPNode3 option) exn_m) opt_addrs"
  proof (cases b)
    case None
    then show ?thesis by (auto intro!: frame_ret)
  next
    case (Some bn)
    have "frame n0 (clip_to bn bsp :: ('s heap, BSPNode3) exn_m) node_addrs"
      using Some child [of bn] by (intro BSPNode3.IH(2)) auto
    then show ?thesis unfolding Some option.case
      by (intro frame_bnd frame_ret) auto
  qed
  have ps: "frame n0 (clip_polygons bsp ps :: ('s heap, nat list) exn_m) set"
    using BSPNode3.prems by (intro frame_clip_polygons) auto
  show ?case unfolding clip_to_bnd
    by (intro frame_bnd [OF ps] frame_bnd [OF fr] frame_bnd [OF bk] frame_ret) auto
qed

lemma fold_flip_length [simp]: "length (fold polygon_flip ps h) = length h"
  by (induction ps arbitrary: h) (auto simp: polygon_flip_def)

lemma fold_flip_other:
  "a \<notin> set ps \<Longrightarrow> fold polygon_flip ps h ! a = h ! a"
  by (induction ps arbitrary: h) (auto simp: polygon_flip_def)

lemma invert_frame:
  "invert nd h = (nd1, h1) \<Longrightarrow>
   length h1 = length h \<and> (\<forall>a. a \<notin> node_addrs nd \<longrightarrow> h1 ! a = h ! a)
   \<and> node_addrs nd1 = node_addrs nd"
proof (induction nd arbitrary: h nd1 h1)
  case (BSPNode3 P f b ps)
  define h0 where "h0 = fold polygon_flip ps h"
  define r1 where "r1 = (case f of None \<Rightarrow> (None, h0)
                | Some fn \<Rightarrow> (case invert fn h0 of (fn1, h2) \<Rightarrow> (Some fn1, h2)))"
  define r2 where "r2 = (case b of None \<Rightarrow> (None, snd r1)
                | Some bn \<Rightarrow> (case invert bn (snd r1) of (bn1, h3) \<Rightarrow> (Some bn1, h3)))"
  have "invert (BSPNode3 P f b ps) h
      = (BSPNode3 (map_option plane_flip P) (fst r2) (fst r1) ps, snd r2)"
    unfolding r2_def r1_def h0_def by (simp add: Let_def)
  with BSPNode3.prems have res: "nd1 = BSPNode3 (map_option plane_flip P) (fst r2) (fst r1) ps"
    "h1 = snd r2"
    by simp_all
  have p0: "length h0 = length h \<and> (\<forall>a. a \<notin> set ps \<longrightarrow> h0 ! a = h ! a)"
    by (simp add: h0_def fold_flip_other)
  have p1: "length (snd r1) = length h0 \<and> (\<forall>a. a \<notin> opt_addrs f \<longrightarrow> snd r1 ! a = h0 ! a)
      \<and> opt_addrs (fst r1) = opt_addrs f"
  proof (cases f)
    case None
    then show ?thesis by (simp add: r1_def)
  next
    case (Some fn)
    obtain fn1 h2 where i: "invert fn h0 = (fn1, h2)" by (cases "invert fn h0")
    from BSPNode3.IH(1) [of fn, OF _ i] Some i show ?thesis by (simp add: r1_def)
  qed
  have p2: "length (snd r2) = length (snd r1)
      \<and> (\<forall>a. a \<notin> opt_addrs b \<longrightarrow> snd r2 ! a = snd r1 ! a)
      \<and> opt_addrs (fst r2) = opt_addrs b"
  proof (cases b)
    case None
    then show ?thesis by (simp add: r2_def)
  next
    case (Some bn)
    obtain bn1 h3 where i: "invert bn (snd r1) = (bn1, h3)" by (cases "invert bn (snd r1)")
    from BSPNode3.IH(2) [of bn, OF _ i] Some i show ?thesis by (simp add: r2_def)
  qed
  from p0 p1 p2 show ?case unfolding res by auto
qed

lemma frame_invert_m:
  assumes "\<forall>a\<in>node_addrs nd. n0 \<le> a"
  shows "frame n0 (invert_m nd) node_addrs"
proof (rule frameI)
  fix h :: "'a heap" and r h1
  assume "n0 \<le> length h" and run: "invert_m nd h = (r, h1)"
  then obtain nd1 where i: "invert nd h = (nd1, h1)"
    by (auto simp: invert_m_def split: prod.splits)
  have "h1 ! a = h ! a" if "a < n0" for a
  proof -
    from that assms have "a \<notin> node_addrs nd" by auto
    with invert_frame [OF i] show ?thesis by blast
  qed
  with invert_frame [OF i] show "unchanged_below n0 h h1"
    by (simp add: unchanged_below_def)
next
  fix h :: "'a heap" and x h1
  assume "n0 \<le> length h" and run: "invert_m nd h = (Inr x, h1)"
  then have i: "invert nd h = (x, h1)"
    by (auto simp: invert_m_def split: prod.splits)
  from invert_frame [OF i] assms show "\<forall>a\<in>node_addrs x. n0 \<le> a" by simp
qed

lemma frame_bnd_with:
  assumes m: "frame n0 m A"
    and q: "\<And>h x h1. m h = (Inr x, h1) \<Longrightarrow> Q x"
    and f: "\<And>x. (\<forall>a\<in>A x. n0 \<le> a) \<Longrightarrow> Q x \<Longrightarrow> frame n0 (f x) B"
  shows "frame n0 (bnd m f) B"
proof -
  have "bnd m f = bnd m (\<lambda>x. if Q x then f x else (\<lambda>h. (Inl TypeError, h)))"
    by (rule ext) (auto simp: bnd_def split: prod.splits sum.splits dest: q)
  moreover have "frame n0 (bnd m (\<lambda>x. if Q x then f x else (\<lambda>h. (Inl TypeError, h)))) B"
  proof (rule frame_bnd [OF m])
    fix x
    assume "\<forall>a\<in>A x. n0 \<le> a"
    then show "frame n0 (if Q x then f x else (\<lambda>h. (Inl TypeError, h))) B"
    proof (cases "Q x")
      case True
      with f [OF \<open>\<forall>a\<in>A x. n0 \<le> a\<close>] show ?thesis by simp
    next
      case False
      then show ?thesis by (simp add: frame_def unchanged_below_refl)
    qed
  qed
  ultimately show ?thesis by simp
qed

lemma frame_read: "(\<And>x. frame n0 (M x) A) \<Longrightarrow> frame n0 (\<lambda>h. M (g h) h) A"
  unfolding frame_def by blast

lemma build_Nil: "build nd [] = ret nd"
  by (cases nd) (auto simp: build.simps ret_def)

lemma build_Cons:
  "build (BSPNode3 P f b ps) (p0 # rest) =
     (\<lambda>h. (bnd (split_all (case P of None \<Rightarrow> plane_clone (plane (h ! p0)) | Some Q \<Rightarrow> Q) rest [])
       (\<lambda>evs.
        bnd (if sent_to {Front} evs \<noteq> [] then
               bnd (build (case f of None \<Rightarrow> empty_node | Some fn \<Rightarrow> fn) (sent_to {Front} evs))
                 (\<lambda>fn1. ret (Some fn1))
             else ret f) (\<lambda>f1.
        bnd (if sent_to {Back} evs \<noteq> [] then
               bnd (build (case b of None \<Rightarrow> empty_node | Some bn \<Rightarrow> bn) (sent_to {Back} evs))
                 (\<lambda>bn1. ret (Some bn1))
             else ret b) (\<lambda>b1.
        ret (BSPNode3 (Some (case P of None \<Rightarrow> plane_clone (plane (h ! p0)) | Some Q \<Rightarrow> Q))
               f1 b1 (ps @ [p0] @ sent_to {CoplanarFront, CoplanarBack} evs)))))) h)"
  by (rule ext, subst build.simps)
     (auto simp: bnd_def ret_def Let_def split: prod.splits sum.splits)

lemma frame_build:
  "\<forall>a\<in>node_addrs nd. n0 \<le> a \<Longrightarrow> \<forall>a\<in>set polys. n0 \<le> a \<Longrightarrow>
   frame n0 (build nd polys :: ('s heap, BSPNode3) exn_m) node_addrs"
proof (induction "length polys" arbitrary: nd polys rule: less_induct)
  case less
  show ?case
  proof (cases polys)
    case Nil
    then show ?thesis using less.prems by (auto simp: build_Nil intro!: frame_ret)
  next
    case (Cons p0 rest)
    obtain P f b ps where nd: "nd = BSPNode3 P f b ps" by (cases nd)
    have sub: "\<And>T evs. \<forall>a\<in>ev_addrs evs. n0 \<le> a \<Longrightarrow> \<forall>a\<in>set (sent_to T evs). n0 \<le> a"
      using sent_to_subset by blast
    have child: "\<forall>a\<in>node_addrs (case f of None \<Rightarrow> empty_node | Some fn \<Rightarrow> fn). n0 \<le> a"
      "\<forall>a\<in>node_addrs (case b of None \<Rightarrow> empty_node | Some bn \<Rightarrow> bn). n0 \<le> a"
      using less.prems(1) unfolding nd by (auto simp: empty_node_def split: option.splits)
    have kids: "\<forall>a\<in>opt_addrs f. n0 \<le> a" "\<forall>a\<in>opt_addrs b. n0 \<le> a" "\<forall>a\<in>set ps. n0 \<le> a"
      "n0 \<le> p0"
      using less.prems unfolding nd Cons by auto
    have rec: "frame n0 ((if sent_to T evs \<noteq> [] then
               bnd (build c (sent_to T evs)) (\<lambda>c1. ret (Some c1))
             else ret x) :: ('s heap, BSPNode3 option) exn_m) opt_addrs"
      if "\<forall>a\<in>ev_addrs evs. n0 \<le> a" "length (sent_to T evs) < length polys"
        "\<forall>a\<in>node_addrs c. n0 \<le> a" "\<forall>a\<in>opt_addrs x. n0 \<le> a" for T evs c x
    proof (cases "sent_to T evs \<noteq> []")
      case True
      have "frame n0 (build c (sent_to T evs) :: ('s heap, BSPNode3) exn_m) node_addrs"
        by (rule less.hyps [OF that(2) that(3) sub [OF that(1)]])
      then show ?thesis using True by (auto intro!: frame_bnd frame_ret)
    next
      case False
      then show ?thesis using that(4) by (auto intro!: frame_ret)
    qed
    have body: "frame n0 (bnd (split_all Pl rest [] :: ('s heap, (target \<times> nat) list) exn_m)
       (\<lambda>evs.
        bnd (if sent_to {Front} evs \<noteq> [] then
               bnd (build (case f of None \<Rightarrow> empty_node | Some fn \<Rightarrow> fn) (sent_to {Front} evs))
                 (\<lambda>fn1. ret (Some fn1))
             else ret f) (\<lambda>f1.
        bnd (if sent_to {Back} evs \<noteq> [] then
               bnd (build (case b of None \<Rightarrow> empty_node | Some bn \<Rightarrow> bn) (sent_to {Back} evs))
                 (\<lambda>bn1. ret (Some bn1))
             else ret b) (\<lambda>b1.
        ret (BSPNode3 (Some Pl) f1 b1 (ps @ [p0] @ sent_to {CoplanarFront, CoplanarBack} evs))))))
        node_addrs" for Pl
    proof (rule frame_bnd_with [where Q = "\<lambda>evs. length (sent_to {Front} evs) < length polys
          \<and> length (sent_to {Back} evs) < length polys"])
      show "frame n0 (split_all Pl rest [] :: ('s heap, (target \<times> nat) list) exn_m) ev_addrs"
        using less.prems(2) Cons by (intro frame_split_all) auto
    next
      fix h :: "'s heap" and x h1
      assume "split_all Pl rest [] h = (Inr x, h1)"
      from split_all_count [OF this] show "length (sent_to {Front} x) < length polys
          \<and> length (sent_to {Back} x) < length polys"
        by (simp add: Cons sent_to_def)
    next
      fix evs
      assume fresh: "\<forall>a\<in>ev_addrs evs. n0 \<le> a"
        and short: "length (sent_to {Front} evs) < length polys
          \<and> length (sent_to {Back} evs) < length polys"
      show "frame n0
        (bnd (if sent_to {Front} evs \<noteq> [] then
               bnd (build (case f of None \<Rightarrow> empty_node | Some fn \<Rightarrow> fn) (sent_to {Front} evs))
                 (\<lambda>fn1. ret (Some fn1))
             else ret f) (\<lambda>f1.
        bnd (if sent_to {Back} evs \<noteq> [] then
               bnd (build (case b of None \<Rightarrow> empty_node | Some bn \<Rightarrow> bn) (sent_to {Back} evs))
                 (\<lambda>bn1. ret (Some bn1))
             else ret b) (\<lambda>b1.
        ret (BSPNode3 (Some Pl) f1 b1 (ps @ [p0] @ sent_to {CoplanarFront, CoplanarBack} evs))))
          :: ('s heap, BSPNode3) exn_m) node_addrs"
        using sub [OF fresh] kids
        by (intro frame_bnd [OF rec [OF fresh _ child(1) kids(1)]]
              frame_bnd [OF rec [OF fresh _ child(2) kids(2)]] frame_ret)
           (auto simp: short)
    qed
    show ?thesis unfolding nd Cons build_Cons
      by (rule frame_read) (rule body)
  qed
qed

lemma frame_new_node:
  "\<forall>a\<in>set polys. n0 \<le> a \<Longrightarrow> frame n0 (new_node polys :: ('s heap, BSPNode3) exn_m) node_addrs"
  unfolding new_node_def
  by (auto intro!: frame_build frame_ret simp: empty_node_def)

lemma frame_fresh_heap: "frame n0 m A \<Longrightarrow> n0 = length h \<Longrightarrow> m h = (r, h1) \<Longrightarrow>
  unchanged_below (length h) h h1"
  by (auto dest: frameD1)

lemma frame_bsp_clone: "frame n0 (bsp_clone A) set"
  unfolding bsp_clone_def by (rule frame_clone_all)

lemma frame_all_polygons: "\<forall>a\<in>node_addrs nd. n0 \<le> a \<Longrightarrow> a \<in> set (all_polygons nd) \<Longrightarrow> n0 \<le> a"
  by (simp add: node_addrs_def)

lemmas frame_steps =
  frame_bnd [OF frame_bsp_clone] frame_bnd [OF frame_new_node] frame_bnd [OF frame_clip_to]
  frame_bnd [OF frame_invert_m] frame_bnd [OF frame_build] frame_ret

lemma frame_bsp_union: "frame n0 (bsp_union A B :: ('s heap, nat list) exn_m) set"
  unfolding bsp_union_def from_polygons_def
  by (intro frame_steps) (auto simp: node_addrs_def)

lemma frame_bsp_subtract: "frame n0 (bsp_subtract A B :: ('s heap, nat list) exn_m) set"
  unfolding bsp_subtract_def from_polygons_def
  by (intro frame_steps) (auto simp: node_addrs_def)

lemma frame_bsp_intersect: "frame n0 (bsp_intersect A B :: ('s heap, nat list) exn_m) set"
  unfolding bsp_intersect_def from_polygons_def
  by (intro frame_steps) (auto simp: node_addrs_def)

lemma frame_bsp_inverse: "frame n0 (bsp_inverse A :: ('s heap, nat list) exn_m) set"
  unfolding bsp_inverse_def
proof (rule frame_bnd [OF frame_bsp_clone])
  fix x
  assume fresh: "\<forall>a\<in>set x. n0 \<le> a"
  show "frame n0 (\<lambda>h::'s heap. (Inr x, fold polygon_flip x h)) set"
  proof (rule frameI)
    fix h :: "'s heap" and r h1
    assume "(Inr x, fold polygon_flip x h) = (r, h1)"
    then have h1: "h1 = fold polygon_flip x h" by simp
    have "h1 ! a = h ! a" if "a < n0" for a
      using that fresh unfolding h1 by (intro fold_flip_other) auto
    then show "unchanged_below n0 h h1" by (simp add: unchanged_below_def h1)
  next
    fix h :: "'s heap" and y h1
    assume "(Inr x, fold polygon_flip x h) = (Inr y, h1)"
    with fresh show "\<forall>a\<in>set y. n0 \<le> a" by simp
  qed
qed

lemma unchanged_operand:
  "unchanged_below (length h) h h1 \<Longrightarrow> set A \<subseteq> {..<length h} \<Longrightarrow> map ((!) h1) A = map ((!) h) A"
  by (auto simp: unchanged_below_def)

lemma inverse_triangle_face:
  "bsp_inverse [0] triangle_face =
     (Inr [1], triangle_face @
        [\<lparr>pvertices = [\<lparr>pos = \<lparr>x3 = 0, y3 = 1, z3 = 0\<rparr>\<rparr>, \<lparr>pos = \<lparr>x3 = 1, y3 = 0, z3 = 0\<rparr>\<rparr>,
                       \<lparr>pos = \<lparr>x3 = 0, y3 = 0, z3 = 0\<rparr>\<rparr>],
          shared = (), plane = \<lparr>pnormal = \<lparr>x3 = 0, y3 = 0, z3 = - 1\<rparr>, pw = 0\<rparr>\<rparr>])"
  by code_simp

lemma union_triangle_face:
  "fst (bsp_union [0] [0] triangle_face) = Inr [1]"
  by code_simp

lemma vertex_clone_id [simp]: "vertex_clone vx = vx"
  by (simp add: vertex_clone_def)

lemma polygon_clone_ok:
  assumes "first_three_ok (pvertices (h ! a))"
  shows "\<exists>P. polygon_clone a h =
     (Inr (length h), h @ [\<lparr>pvertices = pvertices (h ! a), shared = shared (h ! a), plane = P\<rparr>])"
  using assms
  by (auto simp: polygon_clone_def new_polygon_def first_three_ok_def map_idI
      split: sum.splits)

lemma clone_all_ok:
  assumes "\<forall>a\<in>set A. a < length h \<and> first_three_ok (pvertices (h ! a))"
  shows "\<exists>ps. clone_all A h = (Inr [length h..<length h + length A], h @ ps)
           \<and> length ps = length A
           \<and> (\<forall>i<length A. pvertices (ps ! i) = pvertices (h ! (A ! i))
                            \<and> shared (ps ! i) = shared (h ! (A ! i)))"
  using assms
proof (induction A arbitrary: h)
  case Nil
  then show ?case by simp
next
  case (Cons a rest)
  from Cons.prems obtain P where
    c: "polygon_clone a h =
     (Inr (length h), h @ [\<lparr>pvertices = pvertices (h ! a), shared = shared (h ! a), plane = P\<rparr>])"
    using polygon_clone_ok [of h a] by auto
  define c0 where "c0 = \<lparr>pvertices = pvertices (h ! a), shared = shared (h ! a), plane = P\<rparr>"
  have pre: "\<forall>a'\<in>set rest. a' < length (h @ [c0]) \<and> first_three_ok (pvertices ((h @ [c0]) ! a'))"
    using Cons.prems by (auto simp: nth_append)
  from Cons.IH [OF pre] obtain ps where
    r: "clone_all rest (h @ [c0]) = (Inr [length (h @ [c0])..<length (h @ [c0]) + length rest],
          (h @ [c0]) @ ps)"
    and len: "length ps = length rest"
    and fields: "\<forall>i<length rest. pvertices (ps ! i) = pvertices ((h @ [c0]) ! (rest ! i))
                            \<and> shared (ps ! i) = shared ((h @ [c0]) ! (rest ! i))"
    by blast
  have idx: "[length h..<length h + length (a # rest)]
      = length h # [length (h @ [c0])..<length (h @ [c0]) + length rest]"
    by (simp add: upt_conv_Cons del: upt_Suc)
  have run: "clone_all (a # rest) h = (Inr [length h..<length h + length (a # rest)], h @ (c0 # ps))"
    unfolding idx using c r by (simp add: c0_def del: upt_Suc)
  have "pvertices ((c0 # ps) ! i) = pvertices (h ! ((a # rest) ! i))
        \<and> shared ((c0 # ps) ! i) = shared (h ! ((a # rest) ! i))" if "i < length (a # rest)" for i
  proof (cases i)
    case 0
    then show ?thesis by (simp add: c0_def)
  next
    case (Suc j)
    with that have j: "j < length rest" by simp
    with Cons.prems have "rest ! j < length h" by auto
    with fields j Suc show ?thesis by (simp add: nth_append)
  qed
  with run len show ?case by (intro exI [of _ "c0 # ps"]) simp
qed

lemma fold_flip_range:
  "fold polygon_flip [length h..<length h + length ps] (h @ ps @ rest)
     = h @ map flip_value ps @ rest"
proof (induction ps arbitrary: rest rule: rev_induct)
  case Nil
  then show ?case by simp
next
  case (snoc p ps)
  have "fold polygon_flip [length h..<length h + length (ps @ [p])] (h @ (ps @ [p]) @ rest)
      = polygon_flip (length h + length ps)
          (fold polygon_flip [length h..<length h + length ps] (h @ ps @ (p # rest)))"
    by simp
  also have "\<dots> = polygon_flip (length h + length ps) (h @ map flip_value ps @ (p # rest))"
    by (simp only: snoc.IH)
  also have "\<dots> = h @ map flip_value (ps @ [p]) @ rest"
    by (simp add: polygon_flip_def flip_value_def nth_append list_update_append)
  finally show ?case .
qed

lemma bsp_inverse_ok:
  assumes "\<forall>a\<in>set A. a < length h \<and> first_three_ok (pvertices (h ! a))"
  shows "\<exists>ps. bsp_inverse A h = (Inr [length h..<length h + length A], h @ ps)
           \<and> length ps = length A
           \<and> (\<forall>i<length A. pvertices (ps ! i) = rev (pvertices (h ! (A ! i)))
                            \<and> shared (ps ! i) = shared (h ! (A ! i)))"
proof -
  from clone_all_ok [OF assms] obtain ps where
    c: "clone_all A h = (Inr [length h..<length h + length A], h @ ps)"
    and len: "length ps = length A"
    and fields: "\<forall>i<length A. pvertices (ps ! i) = pvertices (h ! (A ! i))
                            \<and> shared (ps ! i) = shared (h ! (A ! i))"
    by blast
  have "bsp_inverse A h = (Inr [length h..<length h + length A], h @ map flip_value ps)"
    using c fold_flip_range [of h ps "[]"] len
    by (simp add: bsp_inverse_def bsp_clone_def bnd_def)
  moreover have "\<forall>i<length A. pvertices (map flip_value ps ! i) = rev (pvertices (h ! (A ! i)))
                            \<and> shared (map flip_value ps ! i) = shared (h ! (A ! i))"
    using fields len by (simp add: flip_value_def)
  ultimately show ?thesis using len by (intro exI [of _ "map flip_value ps"]) simp
qed

lemma inverse_degenerate_quad:
  "bsp_inverse [0] degenerate_quad =
     (Inr [1], degenerate_quad @
        [\<lparr>pvertices = [\<lparr>pos = \<lparr>x3 = - 1, y3 = D 2, z3 = 0\<rparr>\<rparr>, \<lparr>pos = \<lparr>x3 = 0, y3 = 1, z3 = 0\<rparr>\<rparr>,
                       \<lparr>pos = \<lparr>x3 = 1, y3 = 0, z3 = 0\<rparr>\<rparr>, \<lparr>pos = \<lparr>x3 = 0, y3 = 0, z3 = 0\<rparr>\<rparr>],
          shared = (), plane = \<lparr>pnormal = \<lparr>x3 = 0, y3 = 0, z3 = - 1\<rparr>, pw = 0\<rparr>\<rparr>])"
  by code_simp

lemma inverse_inverse_degenerate_quad:
  "fst (bnd (bsp_inverse [0]) bsp_inverse degenerate_quad) = Inl ZeroDivisionError"
  by code_simp

text \<open>
  C10. \<^verbatim>\<open>union\<close>, \<^verbatim>\<open>subtract\<close>, \<^verbatim>\<open>intersect\<close> and \<^verbatim>\<open>inverse\<close> leave their operands
  unchanged: whatever the call returns or raises, every polygon object that existed
  before the call, those of both operands among them, has the vertices, the shared tag
  and the plane it had. The operations clone the operands first and from then on flip and
  split only polygons created during the call.
\<close>

theorem operands_unchanged:
  assumes "set A \<subseteq> {..<length h}" and "set B \<subseteq> {..<length h}"
  shows "(bsp_union A B h = (r, h1) \<or> bsp_subtract A B h = (r, h1)
            \<or> bsp_intersect A B h = (r, h1) \<or> bsp_inverse A h = (r, h1) \<longrightarrow>
          map ((!) h1) A = map ((!) h) A \<and> map ((!) h1) B = map ((!) h) B
          \<and> unchanged_below (length h) h h1)"
proof (intro impI)
  assume "bsp_union A B h = (r, h1) \<or> bsp_subtract A B h = (r, h1)
            \<or> bsp_intersect A B h = (r, h1) \<or> bsp_inverse A h = (r, h1)"
  then have u: "unchanged_below (length h) h h1"
    using frame_fresh_heap [OF frame_bsp_union refl] frame_fresh_heap [OF frame_bsp_subtract refl]
      frame_fresh_heap [OF frame_bsp_intersect refl] frame_fresh_heap [OF frame_bsp_inverse refl]
    by blast
  from u unchanged_operand [OF u assms(1)] unchanged_operand [OF u assms(2)]
  show "map ((!) h1) A = map ((!) h) A \<and> map ((!) h1) B = map ((!) h) B
          \<and> unchanged_below (length h) h h1" by simp
qed

theorem operands_unchanged_witness:
  "fst (bsp_union [0] [0] triangle_face) = Inr [1]
   \<and> map ((!) (snd (bsp_union [0] [0] triangle_face))) [0] = map ((!) triangle_face) [0]
   \<and> fst (bsp_inverse [0] triangle_face) = Inr [1]
   \<and> map ((!) (snd (bsp_inverse [0] triangle_face))) [0] = map ((!) triangle_face) [0]"
  using operands_unchanged [of "[0]" triangle_face "[0]"
      "fst (bsp_union [0] [0] triangle_face)" "snd (bsp_union [0] [0] triangle_face)"]
    operands_unchanged [of "[0]" triangle_face "[0]"
      "fst (bsp_inverse [0] triangle_face)" "snd (bsp_inverse [0] triangle_face)"]
    union_triangle_face inverse_triangle_face
  by (simp add: triangle_face_def)
section \<open>BSP: inverting twice\<close>

text \<open>
  C7. \<^verbatim>\<open>A.inverse().inverse()\<close> does not return for every \<^verbatim>\<open>BSP3\<close>. Take the
  polygon \<open>(0,0,0)\<close>, \<open>(1,0,0)\<close>, \<open>(0,1,0)\<close>, \<open>(-1,2,0)\<close>, whose last three vertices
  are collinear. The first \<^verbatim>\<open>inverse\<close> reverses the vertex list of its clone; the second
  one clones that polygon, the constructor derives the plane from the three vertices that
  are now first, and \<^verbatim>\<open>unit\<close> divides by the zero length: \<^verbatim>\<open>ZeroDivisionError\<close>.
\<close>

theorem inverse_inverse_raises:
  "\<not> (\<exists>B h1 C h2. bsp_inverse [0] degenerate_quad = (Inr B, h1)
         \<and> bsp_inverse B h1 = (Inr C, h2)
         \<and> map (poly_key h2) C = map (poly_key degenerate_quad) [0])"
  using inverse_inverse_degenerate_quad
  by (auto simp: bnd_def inverse_degenerate_quad)

text \<open>
  The same happens to a strictly convex polygon when rounding makes the cross product of
  its last three vertices vanish. In the quadrilateral below every corner turns left, the
  last three vertices span the cross product \<open>-1\<close> when read backwards, and the floats
  compute \<open>2\<^sup>5\<^sup>4 - 2\<^sup>5\<^sup>4\<close> for it. \<open>exact_cross_z\<close> is the \<open>z\<close> component of
  \<open>(b - a) \<times> (c - a)\<close> computed without rounding.
\<close>

definition exact_cross_z :: "Vector3 \<Rightarrow> Vector3 \<Rightarrow> Vector3 \<Rightarrow> real" where
  "exact_cross_z a b c =
     (valof (x3 b) - valof (x3 a)) * (valof (y3 c) - valof (y3 a))
       - (valof (y3 b) - valof (y3 a)) * (valof (x3 c) - valof (x3 a))"

definition thin_quad_vertices :: "BSPVertex3 list" where
  "thin_quad_vertices =
     [\<lparr>pos = \<lparr>x3 = 0, y3 = D 134217729, z3 = 0\<rparr>\<rparr>,
      \<lparr>pos = \<lparr>x3 = 0, y3 = 0, z3 = 0\<rparr>\<rparr>,
      \<lparr>pos = \<lparr>x3 = D 134217729, y3 = D 67108865, z3 = 0\<rparr>\<rparr>,
      \<lparr>pos = \<lparr>x3 = D 268435456, y3 = D 134217729, z3 = 0\<rparr>\<rparr>]"

definition thin_quad :: "unit heap" where
  "thin_quad = snd (new_polygon thin_quad_vertices () [])"

lemma thin_quad_convex:
  "0 < exact_cross_z (pos (thin_quad_vertices ! 0)) (pos (thin_quad_vertices ! 1))
         (pos (thin_quad_vertices ! 2))
   \<and> 0 < exact_cross_z (pos (thin_quad_vertices ! 1)) (pos (thin_quad_vertices ! 2))
         (pos (thin_quad_vertices ! 3))
   \<and> 0 < exact_cross_z (pos (thin_quad_vertices ! 2)) (pos (thin_quad_vertices ! 3))
         (pos (thin_quad_vertices ! 0))
   \<and> 0 < exact_cross_z (pos (thin_quad_vertices ! 3)) (pos (thin_quad_vertices ! 0))
         (pos (thin_quad_vertices ! 1))
   \<and> exact_cross_z (pos (thin_quad_vertices ! 3)) (pos (thin_quad_vertices ! 2))
         (pos (thin_quad_vertices ! 1)) = - 1"
  by code_simp

lemma inverse_inverse_raises_thin_quad:
  "fst (new_polygon thin_quad_vertices () []) = Inr 0
   \<and> fst (bsp_inverse [0] thin_quad) = Inr [1]
   \<and> fst (bnd (bsp_inverse [0]) bsp_inverse thin_quad) = Inl ZeroDivisionError"
  by code_simp

text \<open>
  When the constructor can compute the plane of every polygon from its first three
  vertices and from its last three read backwards, \<^verbatim>\<open>A.inverse().inverse()\<close> returns,
  and its polygons have, in the order of \<open>A\<close>, the vertex positions and the shared tags
  of the polygons of \<open>A\<close>.
\<close>

lemma inverse_inverse:
  assumes "\<forall>a\<in>set A. a < length h \<and> first_three_ok (pvertices (h ! a))
              \<and> first_three_ok (rev (pvertices (h ! a)))"
  shows "\<exists>B h1 C h2. bsp_inverse A h = (Inr B, h1) \<and> bsp_inverse B h1 = (Inr C, h2)
           \<and> map (poly_key h2) C = map (poly_key h) A"
proof -
  define k where "k = length A"
  define m where "m = length h"
  from assms have a1: "\<forall>a\<in>set A. a < length h \<and> first_three_ok (pvertices (h ! a))" by blast
  from bsp_inverse_ok [OF a1] obtain ps where
    i1: "bsp_inverse A h = (Inr [m..<m + k], h @ ps)"
    and len1: "length ps = k"
    and f1: "\<forall>i<k. pvertices (ps ! i) = rev (pvertices (h ! (A ! i)))
                            \<and> shared (ps ! i) = shared (h ! (A ! i))"
    unfolding k_def m_def by blast
  have a2: "\<forall>b\<in>set [m..<m + k]. b < length (h @ ps)
      \<and> first_three_ok (pvertices ((h @ ps) ! b))"
  proof
    fix b
    assume "b \<in> set [m..<m + k]"
    then obtain i where b: "b = m + i" and i: "i < k"
      by (auto simp: le_iff_add)
    from i have "A ! i \<in> set A" by (simp add: k_def)
    with assms have "first_three_ok (rev (pvertices (h ! (A ! i))))" by blast
    with f1 i b len1 show "b < length (h @ ps) \<and> first_three_ok (pvertices ((h @ ps) ! b))"
      by (simp add: m_def nth_append)
  qed
  from bsp_inverse_ok [OF a2] obtain qs where
    i2: "bsp_inverse [m..<m + k] (h @ ps) = (Inr [m + k..<m + k + k], (h @ ps) @ qs)"
    and len2: "length qs = k"
    and f2: "\<forall>i<k. pvertices (qs ! i) = rev (pvertices ((h @ ps) ! ([m..<m + k] ! i)))
                            \<and> shared (qs ! i) = shared ((h @ ps) ! ([m..<m + k] ! i))"
    using len1 by (auto simp: m_def)
  have "map (poly_key ((h @ ps) @ qs)) [m + k..<m + k + k] = map (poly_key h) A"
  proof (rule nth_equalityI)
    show "length (map (poly_key ((h @ ps) @ qs)) [m + k..<m + k + k]) = length (map (poly_key h) A)"
      by (simp add: k_def)
  next
    fix i
    assume "i < length (map (poly_key ((h @ ps) @ qs)) [m + k..<m + k + k])"
    then have i: "i < k" by simp
    have "((h @ ps) @ qs) ! (m + k + i) = qs ! i"
      using len1 by (simp add: m_def nth_append)
    moreover have "(h @ ps) ! (m + i) = ps ! i"
      by (simp add: m_def nth_append)
    ultimately show "map (poly_key ((h @ ps) @ qs)) [m + k..<m + k + k] ! i = map (poly_key h) A ! i"
      using i f1 f2 by (simp add: poly_key_def k_def)
  qed
  with i1 i2 show ?thesis by blast
qed

lemma inverse_inverse_triangle_face:
  "\<exists>B h1 C h2. bsp_inverse [0] triangle_face = (Inr B, h1) \<and> bsp_inverse B h1 = (Inr C, h2)
           \<and> map (poly_key h2) C = map (poly_key triangle_face) [0]"
proof -
  have "first_three_ok (pvertices (triangle_face ! 0))"
    by code_simp
  moreover have "first_three_ok (rev (pvertices (triangle_face ! 0)))"
    by code_simp
  ultimately show ?thesis
    using inverse_inverse [of "[0]" triangle_face] by (simp add: triangle_face_def)
qed

section \<open>The flip algorithm\<close>

text \<open>
  \<^verbatim>\<open>Triangulation2.enforce_delaunay\<close>. The method first fills a queue with one entry
  \<open>(edge, t_i, n_i)\<close> for every edge between two existent triangles, \<open>edge\<close> being the
  sorted pair of the two vertex indices, and then pops entries until the queue is empty,
  flipping the edge of an entry when the opposite apex lies inside the circumcircle.
  The deque is a list (\<^verbatim>\<open>popleft\<close> takes the head, \<^verbatim>\<open>append\<close> adds at the end), the
  set of seen edges is a set, the triangle array is threaded through the computation, and
  every exception of the method is a branch of the model. \<^verbatim>\<open>self.draw()\<close> does nothing
  without a window and is left out.
\<close>

type_synonym entry = "(nat \<times> nat) \<times> nat \<times> nat"

text \<open>
  \<^verbatim>\<open>(min(edge), max(edge))\<close>: comparing with \<^verbatim>\<open>None\<close> raises \<^verbatim>\<open>TypeError\<close>.
\<close>

definition canon :: "nat option \<Rightarrow> nat option \<Rightarrow> error + nat \<times> nat" where
  "canon a b =
     (case (a, b) of (Some p, Some q) \<Rightarrow> Inr (min p q, max p q) | _ \<Rightarrow> Inl TypeError)"

definition lift_e :: "error + 'a \<Rightarrow> ('s, 'a) exn_m" where
  "lift_e r s = (r, s)"

definition tri :: "nat \<Rightarrow> Triangle2 tri_m" where
  "tri i ts = (if i < length ts then (Inr (ts ! i), ts) else (Inl IndexError, ts))"

definition set_n :: "nat \<Rightarrow> nat triple \<Rightarrow> unit tri_m" where
  "set_n i ns ts = (if i < length ts then (Inr (), ts[i := (ts ! i)\<lparr>n := ns\<rparr>])
                    else (Inl IndexError, ts))"

definition set_v :: "nat \<Rightarrow> nat option triple \<Rightarrow> unit tri_m" where
  "set_v i vs ts = (if i < length ts then (Inr (), ts[i := (ts ! i)\<lparr>v := vs\<rparr>])
                    else (Inl IndexError, ts))"

text \<open>
  The loop \<^verbatim>\<open>for i, n in enumerate(triangle.n): if n == old: triangle.n[i] = new; break\<close>
  replaces the first occurrence only.
\<close>

definition replace_first :: "nat \<Rightarrow> nat \<Rightarrow> nat triple \<Rightarrow> nat triple" where
  "replace_first old new ns =
     (case ns of (n0, n1, n2) \<Rightarrow>
        if n0 = old then (new, n1, n2)
        else if n1 = old then (n0, new, n2)
        else if n2 = old then (n0, n1, new)
        else (n0, n1, n2))"

definition fix_neighbor :: "nat \<Rightarrow> nat \<Rightarrow> nat \<Rightarrow> unit tri_m" where
  "fix_neighbor k old new =
     bnd (tri k) (\<lambda>tk. set_n k (replace_first old new (n tk)))"

text \<open>
  The two nested loops that fill the queue: \<open>seed_slots\<close> is the loop over
  \<^verbatim>\<open>range(3)\<close> for one triangle, \<open>seed_triangles\<close> the loop over
  \<^verbatim>\<open>enumerate(self.triangles)\<close>.
\<close>

fun seed_slots :: "Triangle2 list \<Rightarrow> nat \<Rightarrow> Triangle2 \<Rightarrow> nat list
    \<Rightarrow> (nat \<times> nat) set \<times> entry list \<Rightarrow> error + (nat \<times> nat) set \<times> entry list" where
  "seed_slots ts t_i t [] st = Inr st"
| "seed_slots ts t_i t (n_i # rest) st =
     (if sel3 n_i (n t) < length ts then
        if sel3 2 (v (ts ! sel3 n_i (n t))) = None then seed_slots ts t_i t rest st
        else
          (case canon (sel3 n_i (v t)) (sel3 ((n_i + 1) mod 3) (v t)) of
             Inl e \<Rightarrow> Inl e
           | Inr edge \<Rightarrow>
               if edge \<in> fst st then seed_slots ts t_i t rest st
               else seed_slots ts t_i t rest (insert edge (fst st), snd st @ [(edge, t_i, n_i)]))
      else Inl IndexError)"

fun seed_triangles :: "Triangle2 list \<Rightarrow> (nat \<times> Triangle2) list
    \<Rightarrow> (nat \<times> nat) set \<times> entry list \<Rightarrow> error + (nat \<times> nat) set \<times> entry list" where
  "seed_triangles ts [] st = Inr st"
| "seed_triangles ts ((t_i, t) # rest) st =
     (if sel3 2 (v t) = None then seed_triangles ts rest st
      else
        (case seed_slots ts t_i t [0, 1, 2] st of
           Inl e \<Rightarrow> Inl e
         | Inr st1 \<Rightarrow> seed_triangles ts rest st1))"

definition seed_queue :: "Triangle2 list \<Rightarrow> error + (nat \<times> nat) set \<times> entry list" where
  "seed_queue ts = seed_triangles ts (enumerate 0 ts) ({}, [])"

text \<open>
  The search for the slot of triangle \<open>j\<close> that holds the edge; it stops at the first
  match.
\<close>

fun find_slot :: "Triangle2 \<Rightarrow> nat \<times> nat \<Rightarrow> nat list \<Rightarrow> error + nat option" where
  "find_slot triangle_j edge_i [] = Inr None"
| "find_slot triangle_j edge_i (j # rest) =
     (case canon (sel3 j (v triangle_j)) (sel3 ((j + 1) mod 3) (v triangle_j)) of
        Inl e \<Rightarrow> Inl e
      | Inr edge_j \<Rightarrow>
          if edge_i = edge_j then Inr (Some j) else find_slot triangle_j edge_i rest)"

definition in_circle_of :: "Vector2 list \<Rightarrow> Triangle2 \<Rightarrow> Vector2 \<Rightarrow> error + Position" where
  "in_circle_of vs triangle d =
     (case vertex_at vs (sel3 0 (v triangle)) of Inl e \<Rightarrow> Inl e | Inr a \<Rightarrow>
      case vertex_at vs (sel3 1 (v triangle)) of Inl e \<Rightarrow> Inl e | Inr b \<Rightarrow>
      case vertex_at vs (sel3 2 (v triangle)) of Inl e \<Rightarrow> Inl e | Inr c \<Rightarrow>
        Inr (in_circle a b c d))"

definition in_circle_m :: "Vector2 list \<Rightarrow> nat \<Rightarrow> Vector2 \<Rightarrow> Position tri_m" where
  "in_circle_m vs t d = bnd (tri t) (\<lambda>triangle. lift_e (in_circle_of vs triangle d))"

text \<open>
  One of the four conditional \<^verbatim>\<open>edge_queue.append\<close> at the end of a flip: the edge of
  triangle \<open>k\<close> between its vertices \<open>p\<close> and \<open>q\<close> is queued when the triangle
  \<open>other\<close> across it is existent.
\<close>

definition enqueue_if :: "nat \<Rightarrow> nat \<Rightarrow> nat \<Rightarrow> nat \<Rightarrow> nat \<Rightarrow> entry list tri_m" where
  "enqueue_if other k p q slot =
     bnd (tri other) (\<lambda>triangle_o.
       if sel3 2 (v triangle_o) \<noteq> None then
         bnd (tri k) (\<lambda>triangle_k.
         bnd (lift_e (canon (sel3 p (v triangle_k)) (sel3 q (v triangle_k)))) (\<lambda>edge.
           ret [(edge, k, slot)]))
       else ret [])"

text \<open>
  The body of \<^verbatim>\<open>if self.__in_circle(t_index_i, vertex_j) is Position.INSIDE\<close>.
  The vertex and neighbour indices are read before anything is written; the two neighbour
  repairs, the two assignments to \<^verbatim>\<open>n\<close> and the two to \<^verbatim>\<open>v\<close> follow in the order of
  the source, each on the array as the previous one left it.
\<close>

definition flip :: "nat \<times> nat \<Rightarrow> nat \<Rightarrow> nat \<Rightarrow> Triangle2 \<Rightarrow> nat \<Rightarrow> nat \<Rightarrow> Triangle2
    \<Rightarrow> entry list tri_m" where
  "flip edge t_index_i t_n_index_i triangle_i t_index_j t_n_index_j triangle_j =
     (let v_index_i = sel3 ((t_n_index_i + 2) mod 3) (v triangle_i);
          v_index_j = sel3 ((t_n_index_j + 2) mod 3) (v triangle_j);
          t_index_i1 = sel3 ((t_n_index_i + 1) mod 3) (n triangle_i);
          t_index_i2 = sel3 ((t_n_index_i + 2) mod 3) (n triangle_i);
          t_index_j1 = sel3 ((t_n_index_j + 1) mod 3) (n triangle_j);
          t_index_j2 = sel3 ((t_n_index_j + 2) mod 3) (n triangle_j)
      in
      bnd (tri t_index_i1) (\<lambda>_. bnd (tri t_index_i2) (\<lambda>_.
      bnd (tri t_index_j1) (\<lambda>_. bnd (tri t_index_j2) (\<lambda>_.
      bnd (fix_neighbor t_index_i1 t_index_i t_index_j) (\<lambda>_.
      bnd (fix_neighbor t_index_j1 t_index_j t_index_i) (\<lambda>_.
      bnd (set_n t_index_i (t_index_j, t_index_i2, t_index_j1)) (\<lambda>_.
      bnd (set_n t_index_j (t_index_i, t_index_j2, t_index_i1)) (\<lambda>_.
      bnd (tri t_index_i) (\<lambda>now_i.
      bnd (if sel3 t_n_index_i (v now_i) = Some (fst edge) then
             bnd (set_v t_index_i (v_index_j, v_index_i, Some (fst edge))) (\<lambda>_.
                  set_v t_index_j (v_index_i, v_index_j, Some (snd edge)))
           else
             bnd (set_v t_index_i (v_index_j, v_index_i, Some (snd edge))) (\<lambda>_.
                  set_v t_index_j (v_index_i, v_index_j, Some (fst edge)))) (\<lambda>_.
      bnd (enqueue_if t_index_i2 t_index_i 1 2 1) (\<lambda>q1.
      bnd (enqueue_if t_index_j1 t_index_i 0 2 2) (\<lambda>q2.
      bnd (enqueue_if t_index_j2 t_index_j 1 2 1) (\<lambda>q3.
      bnd (enqueue_if t_index_i1 t_index_j 0 2 2) (\<lambda>q4.
        ret (q1 @ q2 @ q3 @ q4))))))))))))))))"

definition MISSING :: error where
  "MISSING = Exception ''Source triangle index missing in neighbor triangle.''"

text \<open>
  One iteration of the \<^verbatim>\<open>while\<close> loop, for the entry that was popped; the result is the
  list of entries appended during the iteration.
\<close>

definition flip_step :: "Vector2 list \<Rightarrow> entry \<Rightarrow> entry list tri_m" where
  "flip_step vs entry =
     (case entry of (edge, t_index_i, t_n_index_i) \<Rightarrow>
      bnd (tri t_index_i) (\<lambda>triangle_i.
        if sel3 2 (v triangle_i) = None then ret []
        else
      bnd (lift_e (canon (sel3 t_n_index_i (v triangle_i))
                         (sel3 ((t_n_index_i + 1) mod 3) (v triangle_i)))) (\<lambda>edge_i.
        if edge \<noteq> edge_i then ret []
        else
          let t_index_j = sel3 t_n_index_i (n triangle_i) in
      bnd (tri t_index_j) (\<lambda>triangle_j.
      bnd (lift_e (find_slot triangle_j edge_i [0, 1, 2])) (\<lambda>found.
        case found of
          None \<Rightarrow> lift_e (Inl MISSING)
        | Some t_n_index_j \<Rightarrow>
            let v_index_j = sel3 ((t_n_index_j + 2) mod 3) (v triangle_j) in
      bnd (lift_e (vertex_at vs v_index_j)) (\<lambda>vertex_j.
      bnd (in_circle_m vs t_index_i vertex_j) (\<lambda>position.
        if position = INSIDE then
          flip edge t_index_i t_n_index_i triangle_i t_index_j t_n_index_j triangle_j
        else ret [])))))))"

text \<open>
  The \<^verbatim>\<open>while len(edge_queue) > 0\<close> loop. Nothing in its text bounds the number of
  iterations, so it is a partial function: a run that does not end has the value \<open>None\<close>.
\<close>

partial_function (option) flip_loop :: "Vector2 list \<Rightarrow> entry list \<Rightarrow> Triangle2 list
    \<Rightarrow> ((error + unit) \<times> Triangle2 list) option" where
  "flip_loop vs edge_queue ts =
     (case edge_queue of
        [] \<Rightarrow> Some (Inr (), ts)
      | entry # rest \<Rightarrow>
          (case flip_step vs entry ts of
             (Inl e, ts1) \<Rightarrow> Some (Inl e, ts1)
           | (Inr new, ts1) \<Rightarrow> flip_loop vs (rest @ new) ts1))"

declare flip_loop.simps [code]

definition enforce_delaunay :: "Triangulation2 \<Rightarrow> ((error + unit) \<times> Triangulation2) option" where
  "enforce_delaunay s =
     (case seed_queue (triangles s) of
        Inl e \<Rightarrow> Some (Inl e, s)
      | Inr (edge_set, edge_queue) \<Rightarrow>
          (case flip_loop (vertices s) edge_queue (triangles s) of
             None \<Rightarrow> None
           | Some (r, ts) \<Rightarrow> Some (r, s\<lparr>triangles := ts\<rparr>)))"


section \<open>Complete triangulations\<close>

text \<open>
  Slot \<open>s\<close> of a triangle holds the edge from \<open>org\<close> to \<open>dst\<close>, with \<open>apex\<close> the
  third vertex and \<open>nbr\<close> the triangle across the edge; \<open>nx\<close> and \<open>pv\<close> are the next
  and the previous slot.
\<close>

definition nx :: "nat \<Rightarrow> nat" where
  "nx s = (s + 1) mod 3"

definition pv :: "nat \<Rightarrow> nat" where
  "pv s = (s + 2) mod 3"

definition org :: "Triangle2 \<Rightarrow> nat \<Rightarrow> nat option" where
  "org t s = sel3 s (v t)"

definition dst :: "Triangle2 \<Rightarrow> nat \<Rightarrow> nat option" where
  "dst t s = sel3 (nx s) (v t)"

definition apex :: "Triangle2 \<Rightarrow> nat \<Rightarrow> nat option" where
  "apex t s = sel3 (pv s) (v t)"

definition nbr :: "Triangle2 \<Rightarrow> nat \<Rightarrow> nat" where
  "nbr t s = sel3 s (n t)"

definition pnt :: "Vector2 list \<Rightarrow> nat option \<Rightarrow> Vector2" where
  "pnt vs a = vs ! the a"


text \<open>
  \<open>orient a b c\<close> is twice the signed area of the triangle \<open>(a, b, c)\<close>, the number
  that \<^verbatim>\<open>side\<close> computes in floats, here as the real number it stands for: it is
  positive exactly when the three points are in counter-clockwise order.
\<close>

definition orient :: "Vector2 \<Rightarrow> Vector2 \<Rightarrow> Vector2 \<Rightarrow> real" where
  "orient a b c =
     (valof (x2 b) - valof (x2 a)) * (valof (y2 c) - valof (y2 a))
       - (valof (x2 c) - valof (x2 a)) * (valof (y2 b) - valof (y2 a))"

text \<open>
  What \<^verbatim>\<open>enforce_delaunay\<close> needs of the triangle array. Every existent triangle has
  three vertex indices into the vertex list, in counter-clockwise order, and three
  neighbour indices into the array (\<open>valid_triangle\<close>); an existent neighbour holds the
  same edge reversed and points back (\<open>linked\<close>); an edge whose neighbour is a ghost is
  an edge of the convex hull: no vertex lies to its right (\<open>supporting\<close>); and the array
  does not hold a directed edge twice (\<open>unique_edges\<close>).
\<close>

definition valid_triangle :: "Vector2 list \<Rightarrow> Triangle2 list \<Rightarrow> Triangle2 \<Rightarrow> bool" where
  "valid_triangle vs ts t =
     ((\<forall>s<3. (case org t s of None \<Rightarrow> False | Some a \<Rightarrow> a < length vs) \<and> nbr t s < length ts)
      \<and> 0 < orient (pnt vs (org t 0)) (pnt vs (org t 1)) (pnt vs (org t 2)))"

definition linked :: "Triangle2 list \<Rightarrow> nat \<Rightarrow> nat \<Rightarrow> bool" where
  "linked ts k s =
     (let j = nbr (ts ! k) s in
      existent (ts ! j) \<longrightarrow>
        (\<exists>s'<3. org (ts ! j) s' = dst (ts ! k) s \<and> dst (ts ! j) s' = org (ts ! k) s
                \<and> nbr (ts ! j) s' = k))"

definition supporting :: "Vector2 list \<Rightarrow> Triangle2 list \<Rightarrow> nat \<Rightarrow> nat \<Rightarrow> bool" where
  "supporting vs ts k s =
     (\<not> existent (ts ! nbr (ts ! k) s) \<longrightarrow>
        (\<forall>p<length vs. 0 \<le> orient (pnt vs (org (ts ! k) s)) (pnt vs (dst (ts ! k) s)) (vs ! p)))"

definition core_inv :: "Vector2 list \<Rightarrow> Triangle2 list \<Rightarrow> bool" where
  "core_inv vs ts =
     (\<forall>k<length ts. existent (ts ! k) \<longrightarrow>
        valid_triangle vs ts (ts ! k) \<and> (\<forall>s<3. linked ts k s \<and> supporting vs ts k s))"

definition unique_edges :: "Triangle2 list \<Rightarrow> bool" where
  "unique_edges ts =
     (\<forall>k<length ts. \<forall>k'<length ts. \<forall>s<3. \<forall>s'<3.
        existent (ts ! k) \<longrightarrow> existent (ts ! k') \<longrightarrow>
        org (ts ! k) s = org (ts ! k') s' \<longrightarrow> dst (ts ! k) s = dst (ts ! k') s' \<longrightarrow> k = k')"

definition complete_triangulation :: "Vector2 list \<Rightarrow> Triangle2 list \<Rightarrow> bool" where
  "complete_triangulation vs ts = (core_inv vs ts \<and> unique_edges ts)"

text \<open>
  An edge between two existent triangles is \<open>bad\<close> at slot \<open>s\<close> of triangle \<open>k\<close>
  when the apex of the neighbour is inside the circumcircle of the vertex triple of
  \<open>k\<close>, as \<^verbatim>\<open>__in_circle\<close> tests it. The array is locally Delaunay when no edge is bad
  from either side.
\<close>

definition bad :: "Vector2 list \<Rightarrow> Triangle2 list \<Rightarrow> nat \<Rightarrow> nat \<Rightarrow> bool" where
  "bad vs ts k s =
     (let t = ts ! k; u = ts ! nbr t s in
      existent t \<and> existent u \<and>
      (\<exists>s'<3. org u s' = dst t s \<and> dst u s' = org t s
         \<and> in_circle (pnt vs (org t 0)) (pnt vs (org t 1)) (pnt vs (org t 2))
              (pnt vs (apex u s')) = INSIDE))"

definition locally_delaunay :: "Vector2 list \<Rightarrow> Triangle2 list \<Rightarrow> bool" where
  "locally_delaunay vs ts = (\<forall>k<length ts. \<forall>s<3. \<not> bad vs ts k s)"

text \<open>
  The quantifiers of these definitions range over the positions of a list and over the
  three slots, so each of them can be computed.
\<close>

lemma all_less_upt: "(\<forall>k<b. P k) = list_all P [0..<b]"
  by (auto simp: list_all_iff)

lemma ex_less_upt: "(\<exists>k<b. P k) = list_ex P [0..<b]"
  by (auto simp: list_ex_iff)

lemma valid_triangle_code [code]:
  "valid_triangle vs ts t =
     (list_all (\<lambda>s. (case org t s of None \<Rightarrow> False | Some a \<Rightarrow> a < length vs)
                     \<and> nbr t s < length ts) [0..<3]
      \<and> 0 < orient (pnt vs (org t 0)) (pnt vs (org t 1)) (pnt vs (org t 2)))"
  unfolding valid_triangle_def all_less_upt ..

lemma linked_code [code]:
  "linked ts k s =
     (let j = nbr (ts ! k) s in
      existent (ts ! j) \<longrightarrow>
        list_ex (\<lambda>s'. org (ts ! j) s' = dst (ts ! k) s \<and> dst (ts ! j) s' = org (ts ! k) s
                \<and> nbr (ts ! j) s' = k) [0..<3])"
  unfolding linked_def ex_less_upt ..

lemma supporting_code [code]:
  "supporting vs ts k s =
     (\<not> existent (ts ! nbr (ts ! k) s) \<longrightarrow>
        list_all (\<lambda>p. 0 \<le> orient (pnt vs (org (ts ! k) s)) (pnt vs (dst (ts ! k) s)) (vs ! p))
          [0..<length vs])"
  unfolding supporting_def all_less_upt ..

lemma core_inv_code [code]:
  "core_inv vs ts =
     list_all (\<lambda>k. existent (ts ! k) \<longrightarrow>
        valid_triangle vs ts (ts ! k)
        \<and> list_all (\<lambda>s. linked ts k s \<and> supporting vs ts k s) [0..<3]) [0..<length ts]"
  unfolding core_inv_def all_less_upt ..

lemma unique_edges_code [code]:
  "unique_edges ts =
     list_all (\<lambda>k. list_all (\<lambda>k'. list_all (\<lambda>s. list_all (\<lambda>s'.
        existent (ts ! k) \<longrightarrow> existent (ts ! k') \<longrightarrow>
        org (ts ! k) s = org (ts ! k') s' \<longrightarrow> dst (ts ! k) s = dst (ts ! k') s' \<longrightarrow> k = k')
       [0..<3]) [0..<3]) [0..<length ts]) [0..<length ts]"
  unfolding unique_edges_def all_less_upt ..

lemma bad_code [code]:
  "bad vs ts k s =
     (let t = ts ! k; u = ts ! nbr t s in
      existent t \<and> existent u \<and>
      list_ex (\<lambda>s'. org u s' = dst t s \<and> dst u s' = org t s
         \<and> in_circle (pnt vs (org t 0)) (pnt vs (org t 1)) (pnt vs (org t 2))
              (pnt vs (apex u s')) = INSIDE) [0..<3])"
  unfolding bad_def ex_less_upt ..

lemma locally_delaunay_code [code]:
  "locally_delaunay vs ts =
     list_all (\<lambda>k. list_all (\<lambda>s. \<not> bad vs ts k s) [0..<3]) [0..<length ts]"
  unfolding locally_delaunay_def all_less_upt ..

section \<open>The flip loop, iteration by iteration\<close>

text \<open>
  A state of the \<^verbatim>\<open>while\<close> loop is the queue together with the triangle array.
  \<open>loop_step\<close> is one iteration, undefined when the queue is empty or the iteration
  raises; \<open>steps vs k\<close> is \<open>k\<close> iterations. A state that the loop reaches again after
  at least one iteration is a state from which it never returns.
\<close>

type_synonym loop_state = "entry list \<times> Triangle2 list"

definition loop_step :: "Vector2 list \<Rightarrow> loop_state \<Rightarrow> loop_state option" where
  "loop_step vs st =
     (case fst st of
        [] \<Rightarrow> None
      | entry # rest \<Rightarrow>
          (case flip_step vs entry (snd st) of
             (Inl e, ts1) \<Rightarrow> None
           | (Inr new, ts1) \<Rightarrow> Some (rest @ new, ts1)))"

fun steps :: "Vector2 list \<Rightarrow> nat \<Rightarrow> loop_state \<Rightarrow> loop_state option" where
  "steps vs 0 st = Some st"
| "steps vs (Suc k) st = (case loop_step vs st of None \<Rightarrow> None | Some st1 \<Rightarrow> steps vs k st1)"

lemma flip_loop_step:
  assumes "loop_step vs (q, ts) = Some (q1, ts1)"
  shows "flip_loop vs q ts = flip_loop vs q1 ts1"
  using assms
  by (subst flip_loop.simps)
     (auto simp: loop_step_def split: list.splits prod.splits sum.splits)

lemma flip_loop_steps:
  "steps vs k (q, ts) = Some (q1, ts1) \<Longrightarrow> flip_loop vs q ts = flip_loop vs q1 ts1"
proof (induction k arbitrary: q ts)
  case 0
  then show ?case by simp
next
  case (Suc k)
  from Suc.prems obtain q2 ts2 where s: "loop_step vs (q, ts) = Some (q2, ts2)"
    and r: "steps vs k (q2, ts2) = Some (q1, ts1)"
    by (auto split: option.splits)
  from flip_loop_step [OF s] Suc.IH [OF r] show ?case by simp
qed

lemma steps_add:
  "steps vs (j + k) st = (case steps vs j st of None \<Rightarrow> None | Some st1 \<Rightarrow> steps vs k st1)"
  by (induction j arbitrary: st) (auto split: option.splits)

lemma steps_cycle_all:
  assumes "steps vs (Suc k) st = Some st"
  shows "\<exists>st1. steps vs j st = Some st1"
proof (induction j rule: less_induct)
  case (less j)
  show ?case
  proof (cases "j < Suc k")
    case True
    then have "steps vs (j + (Suc k - j)) st = Some st" using assms by simp
    then show ?thesis unfolding steps_add by (auto split: option.splits)
  next
    case False
    then have j: "j = Suc k + (j - Suc k)" and "j - Suc k < j" by simp_all
    from less.IH [OF this(2)] obtain st1 where "steps vs (j - Suc k) st = Some st1" by blast
    then have "steps vs (Suc k + (j - Suc k)) st = Some st1"
      unfolding steps_add using assms by simp
    with j show ?thesis by metis
  qed
qed

lemma flip_loop_cycle:
  assumes cyc: "steps vs (Suc k) (q, ts) = Some (q, ts)"
  shows "flip_loop vs q ts = None"
proof -
  define reach where "reach st1 = (\<exists>j. steps vs j (q, ts) = Some st1)" for st1
  have "vs = vs \<longrightarrow> \<not> reach (q1, ts1)" if "flip_loop vs q1 ts1 = Some r" for q1 ts1 r
  proof (rule flip_loop.raw_induct
      [where P = "\<lambda>vs1 q1 ts1 r. vs1 = vs \<longrightarrow> \<not> reach (q1, ts1)", OF _ that])
    fix f vs1 q1 ts1 and r :: "(error + unit) \<times> Triangle2 list"
    assume IH: "\<And>vs1 q1 ts1 y. f vs1 q1 ts1 = Some y \<Longrightarrow> vs1 = vs \<longrightarrow> \<not> reach (q1, ts1)"
      and eq: "(case q1 of
                  [] \<Rightarrow> Some (Inr (), ts1)
                | entry # rest \<Rightarrow>
                    (case flip_step vs1 entry ts1 of
                       (Inl e, ts2) \<Rightarrow> Some (Inl e, ts2)
                     | (Inr new, ts2) \<Rightarrow> f vs1 (rest @ new) ts2)) = Some r"
    show "vs1 = vs \<longrightarrow> \<not> reach (q1, ts1)"
    proof (intro impI notI)
      assume vs1: "vs1 = vs" and "reach (q1, ts1)"
      then obtain j where j: "steps vs j (q, ts) = Some (q1, ts1)"
        by (auto simp: reach_def)
      from steps_cycle_all [OF cyc, of "j + 1"] obtain st2 where
        "steps vs (j + 1) (q, ts) = Some st2" by blast
      with j have s: "loop_step vs (q1, ts1) = Some st2"
        unfolding steps_add by (auto split: option.splits)
      then obtain q2 ts2 where st2: "st2 = (q2, ts2)" by (cases st2)
      from s st2 obtain entry rest new where q1: "q1 = entry # rest"
        and fs: "flip_step vs entry ts1 = (Inr new, ts2)" and q2: "q2 = rest @ new"
        by (auto simp: loop_step_def split: list.splits prod.splits sum.splits)
      from eq q1 fs q2 vs1 have "f vs1 q2 ts2 = Some r" by simp
      from IH [OF this] vs1 have "\<not> reach (q2, ts2)" by simp
      moreover have "steps vs (j + 1) (q, ts) = Some (q2, ts2)"
        unfolding steps_add using j s st2 by simp
      then have "reach (q2, ts2)" unfolding reach_def by blast
      ultimately show False by simp
    qed
  qed
  moreover have "reach (q, ts)"
    unfolding reach_def by (rule exI [of _ 0]) simp
  ultimately show ?thesis by (cases "flip_loop vs q ts") auto
qed


section \<open>The flip algorithm and rounding\<close>

text \<open>
  \<open>circle_det\<close> is the determinant that \<^verbatim>\<open>in_circle\<close> computes in floats, here as the
  real number it stands for: with \<open>a\<close>, \<open>b\<close>, \<open>c\<close> in counter-clockwise order it is
  positive exactly when \<open>d\<close> lies inside their circumcircle and zero exactly when \<open>d\<close>
  lies on it.
\<close>

definition circle_det :: "Vector2 \<Rightarrow> Vector2 \<Rightarrow> Vector2 \<Rightarrow> Vector2 \<Rightarrow> real" where
  "circle_det a b c d =
     (let adx = valof (x2 a) - valof (x2 d); ady = valof (y2 a) - valof (y2 d);
          bdx = valof (x2 b) - valof (x2 d); bdy = valof (y2 b) - valof (y2 d);
          cdx = valof (x2 c) - valof (x2 d); cdy = valof (y2 c) - valof (y2 d);
          abdet = adx * bdy - bdx * ady;
          bcdet = bdx * cdy - cdx * bdy;
          cadet = cdx * ady - adx * cdy;
          alift = adx * adx + ady * ady;
          blift = bdx * bdx + bdy * bdy;
          clift = cdx * cdx + cdy * cdy
      in alift * bcdet + blift * cadet + clift * abdet)"

subsection \<open>Five points on a circle\<close>

text \<open>
  Five points with integer coordinates on one circle, as floats. \<open>cocircular\<close> is the
  state in which \<^verbatim>\<open>triangulate(ARBITRARY, VERTICAL)\<close> leaves them, \<open>cocircular_queue\<close>
  the queue that \<^verbatim>\<open>enforce_delaunay\<close> fills from it, and \<open>cocircular_cycle\<close> the state
  of the loop, queue and triangle array, after its first two iterations.
\<close>

definition cocircular_points :: Triangulation2 where
  "cocircular_points = init
     [\<lparr>oid = 0, x2 = D (- 11348), y2 = D (- 21576)\<rparr>,
      \<lparr>oid = 1, x2 = D (- 13967), y2 = D (- 18291)\<rparr>,
      \<lparr>oid = 2, x2 = D 5086, y2 = D 31212\<rparr>,
      \<lparr>oid = 3, x2 = D 38657, y2 = D 18291\<rparr>,
      \<lparr>oid = 4, x2 = D 19604, y2 = D 31212\<rparr>] []"

definition cocircular :: Triangulation2 where
  "cocircular =
     \<lparr>vertices =
        [\<lparr>oid = 1, x2 = D (- 13967), y2 = D (- 18291)\<rparr>,
         \<lparr>oid = 0, x2 = D (- 11348), y2 = D (- 21576)\<rparr>,
         \<lparr>oid = 2, x2 = D 5086, y2 = D 31212\<rparr>,
         \<lparr>oid = 4, x2 = D 19604, y2 = D 31212\<rparr>,
         \<lparr>oid = 3, x2 = D 38657, y2 = D 18291\<rparr>],
      indices = [Some 1, Some 0, Some 2, Some 4, Some 3], segments = [],
      triangles =
        [\<lparr>v = (Some 0, Some 1, Some 2), n = (1, 3, 6)\<rparr>,
         \<lparr>v = (Some 1, Some 0, None), n = (0, 6, 7)\<rparr>,
         \<lparr>v = (Some 2, Some 4, Some 3), n = (3, 4, 5)\<rparr>,
         \<lparr>v = (Some 4, Some 2, Some 1), n = (2, 0, 7)\<rparr>,
         \<lparr>v = (Some 3, Some 4, None), n = (2, 7, 5)\<rparr>,
         \<lparr>v = (Some 2, Some 3, None), n = (2, 4, 6)\<rparr>,
         \<lparr>v = (Some 0, Some 2, None), n = (0, 5, 1)\<rparr>,
         \<lparr>v = (Some 4, Some 1, None), n = (3, 1, 4)\<rparr>]\<rparr>"

definition cocircular_queue :: "entry list" where
  "cocircular_queue = [((1, 2), 0, 1), ((2, 4), 2, 0)]"

definition cocircular_cycle :: loop_state where
  "cocircular_cycle =
     ([((2, 4), 3, 1)],
      [\<lparr>v = (Some 4, Some 0, Some 1), n = (3, 1, 7)\<rparr>,
       \<lparr>v = (Some 1, Some 0, None), n = (0, 6, 7)\<rparr>,
       \<lparr>v = (Some 2, Some 4, Some 3), n = (3, 4, 5)\<rparr>,
       \<lparr>v = (Some 0, Some 4, Some 2), n = (0, 2, 6)\<rparr>,
       \<lparr>v = (Some 3, Some 4, None), n = (2, 7, 5)\<rparr>,
       \<lparr>v = (Some 2, Some 3, None), n = (2, 4, 6)\<rparr>,
       \<lparr>v = (Some 0, Some 2, None), n = (3, 5, 1)\<rparr>,
       \<lparr>v = (Some 4, Some 1, None), n = (0, 1, 4)\<rparr>])"

lemma cocircular_run:
  "triangulate ARBITRARY VERTICAL cocircular_points = Some (Inr (), cocircular)"
  by code_simp

lemma cocircular_complete: "complete_triangulation (vertices cocircular) (triangles cocircular)"
  by code_simp

text \<open>
  The five points lie on one circle: no edge of any triangulation of them fails the
  criterion. The first test of the loop, on the edge between the triangles \<open>(0,1,2)\<close>
  and \<open>(4,2,1)\<close>, computes \<open>256\<close> for a determinant that is zero.
\<close>

lemma cocircular_on_circle:
  "list_all (\<lambda>d. circle_det (vertices cocircular ! 0) (vertices cocircular ! 1)
       (vertices cocircular ! 2) d = 0) (vertices cocircular)
   \<and> 0 < orient (vertices cocircular ! 0) (vertices cocircular ! 1) (vertices cocircular ! 2)"
  by code_simp

lemma cocircular_rounding:
  "in_circle_det (vertices cocircular ! 0) (vertices cocircular ! 1) (vertices cocircular ! 2)
     (vertices cocircular ! 4) = D 256
   \<and> circle_det (vertices cocircular ! 0) (vertices cocircular ! 1) (vertices cocircular ! 2)
     (vertices cocircular ! 4) = 0"
  by code_simp

lemma cocircular_seed:
  "(case seed_queue (triangles cocircular) of Inl e \<Rightarrow> None | Inr (es, q) \<Rightarrow> Some q)
     = Some cocircular_queue"
  by code_simp

lemma cocircular_enter:
  "steps (vertices cocircular) 2 (cocircular_queue, triangles cocircular) = Some cocircular_cycle"
  by code_simp

lemma cocircular_again:
  "steps (vertices cocircular) 10 cocircular_cycle = Some cocircular_cycle"
  by code_simp

lemma cocircular_loop:
  "flip_loop (vertices cocircular) cocircular_queue (triangles cocircular) = None"
proof -
  have "flip_loop (vertices cocircular) (fst cocircular_cycle) (snd cocircular_cycle) = None"
    using cocircular_again by (intro flip_loop_cycle [of _ 9]) simp
  moreover have "flip_loop (vertices cocircular) cocircular_queue (triangles cocircular)
      = flip_loop (vertices cocircular) (fst cocircular_cycle) (snd cocircular_cycle)"
    using cocircular_enter by (intro flip_loop_steps [of _ 2]) simp
  ultimately show ?thesis by simp
qed

text \<open>
  C3. The flip loop of \<^verbatim>\<open>enforce_delaunay\<close> does not terminate from every complete
  triangulation. For the five points above, \<^verbatim>\<open>triangulate\<close> returns the state
  \<open>cocircular\<close>, which is a complete triangulation of them; \<^verbatim>\<open>enforce_delaunay\<close> fills
  the queue from it without an exception, and the loop never returns: rounding makes
  \<^verbatim>\<open>in_circle\<close> answer \<open>INSIDE\<close> for points that lie on the circle, every flip queues
  the next edge, and after twelve iterations the queue and the triangle array are what
  they were after two.
\<close>

theorem flip_loop_cycles:
  "triangulate ARBITRARY VERTICAL cocircular_points = Some (Inr (), cocircular)
   \<and> complete_triangulation (vertices cocircular) (triangles cocircular)
   \<and> (\<exists>es. seed_queue (triangles cocircular) = Inr (es, cocircular_queue))
   \<and> steps (vertices cocircular) 2 (cocircular_queue, triangles cocircular) = Some cocircular_cycle
   \<and> steps (vertices cocircular) 12 (cocircular_queue, triangles cocircular) = Some cocircular_cycle
   \<and> flip_loop (vertices cocircular) cocircular_queue (triangles cocircular) = None
   \<and> enforce_delaunay cocircular = None"
proof -
  have seed: "\<exists>es. seed_queue (triangles cocircular) = Inr (es, cocircular_queue)"
    using cocircular_seed by (auto split: sum.splits prod.splits)
  have twelve: "steps (vertices cocircular) 12 (cocircular_queue, triangles cocircular)
      = Some cocircular_cycle"
    using steps_add [of "vertices cocircular" 2 10 "(cocircular_queue, triangles cocircular)"]
    by (simp add: cocircular_enter cocircular_again)
  have "enforce_delaunay cocircular = None"
    using seed cocircular_loop by (auto simp: enforce_delaunay_def)
  with cocircular_run cocircular_complete seed cocircular_enter twelve cocircular_loop
  show ?thesis by blast
qed

subsection \<open>The corners of a rectangle\<close>


definition rectangle :: Triangulation2 where
  "rectangle =
     \<lparr>vertices =
        [\<lparr>oid = 0, x2 = D 10, y2 = D (- 8839)\<rparr>,
         \<lparr>oid = 1, x2 = D 10, y2 = D 8560\<rparr>,
         \<lparr>oid = 2, x2 = D 14736, y2 = D (- 8839)\<rparr>,
         \<lparr>oid = 3, x2 = D 14736, y2 = D 8560\<rparr>],
      indices = [Some 0, Some 1, Some 2, Some 3], segments = [],
      triangles =
        [\<lparr>v = (Some 0, Some 1, None), n = (1, 4, 5)\<rparr>,
         \<lparr>v = (Some 1, Some 0, Some 2), n = (0, 5, 2)\<rparr>,
         \<lparr>v = (Some 2, Some 3, Some 1), n = (3, 4, 1)\<rparr>,
         \<lparr>v = (Some 3, Some 2, None), n = (2, 5, 4)\<rparr>,
         \<lparr>v = (Some 1, Some 3, None), n = (2, 3, 0)\<rparr>,
         \<lparr>v = (Some 2, Some 0, None), n = (1, 0, 3)\<rparr>]\<rparr>"

definition rectangle_flipped :: "Triangle2 list" where
  "rectangle_flipped =
     [\<lparr>v = (Some 0, Some 1, None), n = (2, 4, 5)\<rparr>,
      \<lparr>v = (Some 3, Some 0, Some 2), n = (2, 5, 3)\<rparr>,
      \<lparr>v = (Some 0, Some 3, Some 1), n = (1, 4, 0)\<rparr>,
      \<lparr>v = (Some 3, Some 2, None), n = (1, 5, 4)\<rparr>,
      \<lparr>v = (Some 1, Some 3, None), n = (2, 3, 0)\<rparr>,
      \<lparr>v = (Some 2, Some 0, None), n = (1, 0, 3)\<rparr>]"




text \<open>
  The four corners lie on one circle, so the determinant of \<^verbatim>\<open>in_circle\<close> is zero for
  them in every order; the floats compute \<open>16\<close> for the one test of the loop, and a
  positive number again for both tests of the diagonal that the flip puts in.
\<close>

lemma rectangle_rounding:
  "in_circle_det (vertices rectangle ! 1) (vertices rectangle ! 0) (vertices rectangle ! 2)
     (vertices rectangle ! 3) = D 16
   \<and> circle_det (vertices rectangle ! 1) (vertices rectangle ! 0) (vertices rectangle ! 2)
     (vertices rectangle ! 3) = 0
   \<and> 0 < in_circle_det (vertices rectangle ! 3) (vertices rectangle ! 0) (vertices rectangle ! 2)
     (vertices rectangle ! 1)
   \<and> 0 < in_circle_det (vertices rectangle ! 0) (vertices rectangle ! 3) (vertices rectangle ! 1)
     (vertices rectangle ! 2)"
  by code_simp


lemma rectangle_not_delaunay: "\<not> locally_delaunay (vertices rectangle) rectangle_flipped"
  by code_simp


end
